(* ===== verification/Prelude.thy ===== *)
theory Prelude
  imports Complex_Main "HOL-Library.Word"
begin

unbundle bit_operations_syntax

text \<open>
  Shared vocabulary of the development. C \<open>double\<close>s are modelled as exact
  reals (\<open>double\<close> below): the viewport formulas of \<open>src/main.cpp\<close> are
  field arithmetic, and the rounding of IEEE doubles (and of the \<open>float\<close>
  uniforms) is outside the model. The one place where IEEE semantics departs
  from the reals in a way the program can reach is a division by zero, which
  yields NaN or an infinity instead of a number: the model makes it a value
  \<open>Div_by_zero\<close> of the fault type, so a handler that divides returns
  \<open>fp_fault + 'a\<close>. C \<open>int\<close>s used as bit sets are \<open>32 word\<close>s.
\<close>

type_synonym double = real
type_synonym c_int = "32 word"

datatype fp_fault = Div_by_zero

definition fdiv :: "double \<Rightarrow> double \<Rightarrow> fp_fault + double" where
  "fdiv a b = (if b = 0 then Inl Div_by_zero else Inr (a / b))"

text \<open>
  The facts that unfold the event handlers of the program are collected in
  \<open>handler_defs\<close>, so that a scenario proof is \<open>simp add: handler_defs\<close>.
\<close>

named_theorems handler_defs "definitions of the GLFW callbacks and their helpers"

lemma fdiv_nonzero [simp]: "b \<noteq> 0 \<Longrightarrow> fdiv a b = Inr (a / b)"
  by (simp add: fdiv_def)

lemma fdiv_zero [simp]: "fdiv a 0 = Inl Div_by_zero"
  by (simp add: fdiv_def)

lemma fdiv_Inr_iff: "fdiv a b = Inr q \<longleftrightarrow> b \<noteq> 0 \<and> q = a / b"
  by (auto simp: fdiv_def)

lemma fdiv_Inl_iff: "fdiv a b = Inl e \<longleftrightarrow> b = 0"
  by (cases e) (auto simp: fdiv_def)

text \<open>
  The C conversion of a \<open>double\<close> to an integer truncates towards zero
  (\<open>glViewport(0, 0, resx, resy)\<close> passes the doubles as \<open>GLsizei\<close>).
\<close>

definition c_trunc :: "double \<Rightarrow> int" where
  "c_trunc x = (if 0 \<le> x then \<lfloor>x\<rfloor> else - \<lfloor>- x\<rfloor>)"

lemma c_trunc_of_int [simp]: "c_trunc (of_int n) = n"
  by (simp add: c_trunc_def)

lemma c_trunc_numeral [simp]: "c_trunc (numeral n) = numeral n"
  using c_trunc_of_int [of "numeral n"] by simp

subsection \<open>The zoom base \<open>0.95\<close>\<close>

text \<open>
  \<open>pow(0.95, y)\<close> of the scroll handler is \<open>0.95 powr y\<close>; these are the facts
  about it that the zoom lemmas share.
\<close>

lemma zoom_base_pos [simp]: "0 < (0.95::real) powr s"
  by simp

lemma zoom_base_lt_one: "0 < s \<Longrightarrow> (0.95::real) powr s < 1"
proof -
  assume "0 < s"
  then have "(0.95::real) powr s < 1 powr s"
    by (rule powr_less_mono2) simp_all
  then show ?thesis by simp
qed

lemma zoom_base_gt_one: "s < 0 \<Longrightarrow> 1 < (0.95::real) powr s"
proof -
  assume "s < 0"
  then have "(1::real) powr s < 0.95 powr s"
    by (rule powr_less_mono2_neg) simp_all
  then show ?thesis by simp
qed

lemma zoom_base_ne_one: "s \<noteq> 0 \<Longrightarrow> (0.95::real) powr s \<noteq> 1"
proof -
  assume "s \<noteq> 0"
  then have "s < 0 \<or> 0 < s" by auto
  then show ?thesis using zoom_base_lt_one [of s] zoom_base_gt_one [of s] by auto
qed

lemma zoom_base_zero [simp]: "(0.95::real) powr 0 = 1"
  by simp

lemma zoom_base_one [simp]: "(0.95::real) powr 1 = 0.95"
  by simp

subsection \<open>Bits of a C \<open>int\<close>\<close>

text \<open>\<open>1 << b\<close> on a C \<open>int\<close>, for the bit positions GLFW produces.\<close>

lemma bit_c_int_lt: "bit (w::c_int) n \<Longrightarrow> n < 32"
  using bit_imp_le_length [of w n] by simp

lemma bit_shift_one_iff: "bit (push_bit b (1::c_int)) i \<longleftrightarrow> i = b \<and> b < 32"
  by (auto simp: bit_simps)

lemma and_one_eq_zero_iff: "((w::c_int) AND 1 = 0) \<longleftrightarrow> \<not> bit w 0"
  by (simp add: and_one_eq bit_0 odd_iff_mod_2_eq_one)

end
