(* ===== verification/Shader.thy ===== *)
theory Shader
  imports Prelude
begin

text \<open>
  Shader loading in \<open>src/main.cpp\<close>: \<open>readFile\<close> (lines 38--52),
  \<open>CompileShader\<close> (lines 54--74) and \<open>LoadShaders\<close> (lines 76--110). They act
  on the world outside the program, modelled as the record \<open>world\<close>: the file
  system (a map from names to contents), the text written to standard output,
  the number of heap bytes allocated and not freed, and the GL shader and
  program objects. The GL driver's compiler and linker are collaborators; they
  are given in the world as functions from sources to a status and an info
  log. \<open>fopen\<close> of a missing file returns \<open>NULL\<close>, and the next \<open>fseek\<close>
  dereferences it: that is the fault \<open>Null_file\<close>. Printing a compile log
  that GL did not write is a read of uninitialised memory: that is the fault
  \<open>Uninitialised_log\<close>.

  The lemmas show that a compiled shader's source is exactly the file's
  contents up to the first NUL byte. They also show that \<open>LoadShaders\<close> leaves
  both shader objects flagged for deletion and attached to the new program,
  that it never frees the two file buffers, that it faults on a missing file
  or a failed compile without a log, and that it succeeds, whatever the link
  status, when both files exist and every failed compile has a log.
\<close>

datatype io_fault = Null_file string | Uninitialised_log

datatype shader_type = GL_VERTEX_SHADER | GL_FRAGMENT_SHADER

record shader_obj =
  sh_type :: shader_type
  sh_source :: string
  sh_compiled :: bool
  sh_log :: string
  sh_delete_flag :: bool

record program_obj =
  attached :: "nat list"
  linked :: bool
  prog_log :: string

record world =
  files :: "string \<rightharpoonup> string"
  stdout :: string
  heap_live :: nat
  next_name :: nat
  shader_objs :: "nat \<rightharpoonup> shader_obj"
  program_objs :: "nat \<rightharpoonup> program_obj"
  compiler :: "shader_type \<Rightarrow> string \<Rightarrow> bool \<times> string"
  linker :: "(bool \<times> string) list \<Rightarrow> bool \<times> string"

abbreviation NL :: char where "NL \<equiv> CHR 0x0A"
abbreviation NUL :: char where "NUL \<equiv> CHR 0x00"

subsection \<open>C library and GL operations used\<close>

text \<open>\<open>printf("%d", n)\<close> for a non-negative \<open>n\<close>.\<close>

fun format_d :: "nat \<Rightarrow> string" where
  "format_d n =
     (if n < 10 then [''0123456789'' ! n]
      else format_d (n div 10) @ [''0123456789'' ! (n mod 10)])"

declare format_d.simps [simp del]

definition printf :: "world \<Rightarrow> string \<Rightarrow> world" where
  "printf w s = w\<lparr>stdout := stdout w @ s\<rparr>"

text \<open>A C string: the characters before the first NUL.\<close>

definition c_str :: "string \<Rightarrow> string" where
  "c_str buf = takeWhile (\<lambda>c. c \<noteq> NUL) buf"

text \<open>
  The GL object calls \<open>LoadShaders\<close> makes: fresh names from a counter, and
  updates of an existing object (a call on a name that is no object has no
  effect in GL).
\<close>

definition upd_shader :: "world \<Rightarrow> nat \<Rightarrow> (shader_obj \<Rightarrow> shader_obj) \<Rightarrow> world" where
  "upd_shader w sid f = w\<lparr>shader_objs := (shader_objs w)(sid := map_option f (shader_objs w sid))\<rparr>"

definition upd_program :: "world \<Rightarrow> nat \<Rightarrow> (program_obj \<Rightarrow> program_obj) \<Rightarrow> world" where
  "upd_program w pid f = w\<lparr>program_objs := (program_objs w)(pid := map_option f (program_objs w pid))\<rparr>"

definition glCreateShader :: "world \<Rightarrow> shader_type \<Rightarrow> nat \<times> world" where
  "glCreateShader w t =
     (next_name w,
      w\<lparr>next_name := Suc (next_name w),
        shader_objs := (shader_objs w)(next_name w \<mapsto>
          \<lparr>sh_type = t, sh_source = [], sh_compiled = False, sh_log = [], sh_delete_flag = False\<rparr>)\<rparr>)"

definition glShaderSource :: "world \<Rightarrow> nat \<Rightarrow> string \<Rightarrow> world" where
  "glShaderSource w sid src = upd_shader w sid (\<lambda>s. s\<lparr>sh_source := src\<rparr>)"

definition glCompileShader :: "world \<Rightarrow> nat \<Rightarrow> world" where
  "glCompileShader w sid =
     upd_shader w sid (\<lambda>s. let (ok, msg) = compiler w (sh_type s) (sh_source s)
                          in s\<lparr>sh_compiled := ok, sh_log := msg\<rparr>)"

text \<open>\<open>GL_INFO_LOG_LENGTH\<close>: the log's length with its terminator, 0 for none.\<close>

definition info_log_length :: "string \<Rightarrow> nat" where
  "info_log_length infolog = (if infolog = [] then 0 else Suc (length infolog))"

definition glCreateProgram :: "world \<Rightarrow> nat \<times> world" where
  "glCreateProgram w =
     (next_name w,
      w\<lparr>next_name := Suc (next_name w),
        program_objs := (program_objs w)(next_name w \<mapsto>
          \<lparr>attached = [], linked = False, prog_log = []\<rparr>)\<rparr>)"

definition glAttachShader :: "world \<Rightarrow> nat \<Rightarrow> nat \<Rightarrow> world" where
  "glAttachShader w pid sid = upd_program w pid (\<lambda>p. p\<lparr>attached := attached p @ [sid]\<rparr>)"

definition glLinkProgram :: "world \<Rightarrow> nat \<Rightarrow> world" where
  "glLinkProgram w pid =
     upd_program w pid (\<lambda>p.
       let (ok, msg) = linker w (map (\<lambda>sid. case shader_objs w sid of
                                          None \<Rightarrow> (False, [])
                                        | Some s \<Rightarrow> (sh_compiled s, sh_source s)) (attached p))
       in p\<lparr>linked := ok, prog_log := msg\<rparr>)"

text \<open>
  \<open>glDeleteShader\<close> of a shader attached to a program only flags it; it is
  freed when no program holds it any more.
\<close>

definition attached_anywhere :: "world \<Rightarrow> nat \<Rightarrow> bool" where
  "attached_anywhere w sid \<longleftrightarrow> (\<exists>pid \<in> dom (program_objs w). sid \<in> set (attached (the (program_objs w pid))))"

definition glDeleteShader :: "world \<Rightarrow> nat \<Rightarrow> world" where
  "glDeleteShader w sid =
     (if attached_anywhere w sid then upd_shader w sid (\<lambda>s. s\<lparr>sh_delete_flag := True\<rparr>)
      else w\<lparr>shader_objs := (shader_objs w)(sid := None)\<rparr>)"

definition shader_compiled :: "world \<Rightarrow> nat \<Rightarrow> bool" where
  "shader_compiled w sid = (case shader_objs w sid of None \<Rightarrow> False | Some s \<Rightarrow> sh_compiled s)"

definition shader_log :: "world \<Rightarrow> nat \<Rightarrow> string" where
  "shader_log w sid = (case shader_objs w sid of None \<Rightarrow> [] | Some s \<Rightarrow> sh_log s)"

definition program_log :: "world \<Rightarrow> nat \<Rightarrow> string" where
  "program_log w pid = (case program_objs w pid of None \<Rightarrow> [] | Some p \<Rightarrow> prog_log p)"

subsection \<open>The program's functions\<close>

text \<open>
  \<open>readFile\<close>: open, measure, report, allocate \<open>fsize + 1\<close> bytes, read,
  terminate with NUL. The buffer is returned and never freed by the callers.
\<close>

definition readFile :: "world \<Rightarrow> string \<Rightarrow> io_fault + (string \<times> world)" where
  "readFile w filename =
     (case files w filename of
        None \<Rightarrow> Inl (Null_file filename)
      | Some contents \<Rightarrow>
          (let fsize = length contents;
               w1 = printf w (''Reading '' @ filename @ '', Filesize = '' @ format_d fsize @ [NL]);
               string = contents @ [NUL]
           in Inr (string, w1\<lparr>heap_live := heap_live w1 + (fsize + 1)\<rparr>)))"

text \<open>
  \<open>CompileShader\<close>: the source is passed as a C string with no length, so GL
  reads it up to the first NUL. On a failed compile the log is copied into a
  buffer of \<open>InfoLogLength\<close> bytes and printed; with no log that buffer is
  never written.
\<close>

definition CompileShader :: "world \<Rightarrow> string \<Rightarrow> nat \<Rightarrow> io_fault + world" where
  "CompileShader w file_path ShaderID =
     (case readFile w file_path of
        Inl e \<Rightarrow> Inl e
      | Inr (ShaderCode, w1) \<Rightarrow>
          (let w2 = printf w1 (''Compiling shader : '' @ file_path @ [NL]);
               w3 = glShaderSource w2 ShaderID (c_str ShaderCode);
               w4 = glCompileShader w3 ShaderID;
               Result = shader_compiled w4 ShaderID;
               InfoLogLength = info_log_length (shader_log w4 ShaderID)
           in if \<not> Result then
                (if InfoLogLength = 0 then Inl Uninitialised_log
                 else Inr (printf w4 (shader_log w4 ShaderID)))
              else Inr w4))"

text \<open>
  \<open>LoadShaders\<close>, lines 77--79: report and create the two shader objects.
\<close>

definition create_shaders :: "world \<Rightarrow> nat \<times> nat \<times> world" where
  "create_shaders w =
     (let w1 = printf w (''Creating shaders'' @ [NL]);
          (VertexShaderID, w2) = glCreateShader w1 GL_VERTEX_SHADER;
          (FragmentShaderID, w3) = glCreateShader w2 GL_FRAGMENT_SHADER
      in (VertexShaderID, FragmentShaderID, w3))"

text \<open>
  \<open>LoadShaders\<close>, lines 85--109: create and link the program, print the link
  log when there is one, delete both shaders. The link status is read
  (line 95) but never tested, and \<open>fflush\<close> has no effect on the modelled
  output.
\<close>

definition link_program :: "world \<Rightarrow> nat \<Rightarrow> nat \<Rightarrow> nat \<times> world" where
  "link_program w5 VertexShaderID FragmentShaderID =
     (let w6 = printf w5 (''Create and linking program'' @ [NL]);
          (ProgramID, w7) = glCreateProgram w6;
          w8 = glAttachShader w7 ProgramID VertexShaderID;
          w9 = glAttachShader w8 ProgramID FragmentShaderID;
          w10 = glLinkProgram w9 ProgramID;
          InfoLogLength = info_log_length (program_log w10 ProgramID);
          w11 = (if 0 < InfoLogLength
                 then printf w10 (program_log w10 ProgramID @ [NL]) else w10);
          w12 = glDeleteShader w11 VertexShaderID;
          w13 = glDeleteShader w12 FragmentShaderID
      in (ProgramID, w13))"

text \<open>
  \<open>LoadShaders\<close>: create both shaders, compile each from its file (a fault of
  \<open>readFile\<close> or of the log printing ends the run), then link.
\<close>

definition LoadShaders :: "world \<Rightarrow> string \<Rightarrow> string \<Rightarrow> io_fault + (nat \<times> world)" where
  "LoadShaders w vertex_file_path fragment_file_path =
     (let (VertexShaderID, FragmentShaderID, w3) = create_shaders w
      in case CompileShader w3 vertex_file_path VertexShaderID of
           Inl e \<Rightarrow> Inl e
         | Inr w4 \<Rightarrow>
             (case CompileShader w4 fragment_file_path FragmentShaderID of
                Inl e \<Rightarrow> Inl e
              | Inr w5 \<Rightarrow> Inr (link_program w5 VertexShaderID FragmentShaderID)))"

text \<open>
  A world in which both shader files that \<open>main\<close> loads exist and the driver
  accepts every source without a log.
\<close>

definition sample_world :: world where
  "sample_world =
     \<lparr>files = [''vertex_shader.vs'' \<mapsto> ''void main(){}'', ''fragment_shader.fs'' \<mapsto> ''out vec4 c;''],
      stdout = [], heap_live = 0, next_name = 1, shader_objs = Map.empty, program_objs = Map.empty,
      compiler = (\<lambda>_ _. (True, [])), linker = (\<lambda>_. (True, []))\<rparr>"

subsection \<open>Properties\<close>

lemma c_str_buffer: "c_str (c @ [NUL]) = takeWhile (\<lambda>ch. ch \<noteq> NUL) c"
  by (induction c) (auto simp: c_str_def)

lemma readFile_Inr_iff:
  "readFile w n = Inr (buf, w') \<longleftrightarrow>
     (\<exists>c. files w n = Some c \<and> buf = c @ [NUL] \<and>
        w' = w\<lparr>stdout := stdout w @ ''Reading '' @ n @ '', Filesize = '' @ format_d (length c) @ [NL],
              heap_live := heap_live w + Suc (length c)\<rparr>)"
  by (auto simp: readFile_def printf_def Let_def split: option.splits)

lemma CompileShader_Inr:
  assumes "CompileShader w path sid = Inr w'"
  shows "\<exists>c. files w path = Some c \<and> files w' = files w \<and>
     heap_live w' = heap_live w + Suc (length c) \<and>
     next_name w' = next_name w \<and> program_objs w' = program_objs w \<and>
     compiler w' = compiler w \<and> linker w' = linker w \<and>
     shader_objs w' = (shader_objs w)(sid := map_option (\<lambda>s.
        let src = takeWhile (\<lambda>ch. ch \<noteq> NUL) c; (ok, msg) = compiler w (sh_type s) src
        in s\<lparr>sh_source := src, sh_compiled := ok, sh_log := msg\<rparr>) (shader_objs w sid))"
  using assms
  by (auto simp: CompileShader_def readFile_Inr_iff printf_def glShaderSource_def glCompileShader_def
      upd_shader_def shader_compiled_def shader_log_def info_log_length_def c_str_buffer Let_def
      split: sum.splits option.splits if_splits prod.splits)

text \<open>
  C37. Compiling from a file gives the shader object exactly the file's
  contents up to the first NUL byte (all of it for a text file), with the
  driver's verdict and log on that source.
\<close>

theorem CompileShader_source:
  assumes "CompileShader w path sid = Inr w'" and "files w path = Some c"
    and "shader_objs w sid = Some s"
  shows "shader_objs w' sid =
    Some (s\<lparr>sh_source := takeWhile (\<lambda>ch. ch \<noteq> NUL) c,
            sh_compiled := fst (compiler w (sh_type s) (takeWhile (\<lambda>ch. ch \<noteq> NUL) c)),
            sh_log := snd (compiler w (sh_type s) (takeWhile (\<lambda>ch. ch \<noteq> NUL) c))\<rparr>)"
  using CompileShader_Inr [OF assms(1)] assms(2,3) by (auto simp: Let_def prod.case_eq_if)

theorem CompileShader_source_witness:
  "\<exists>w'. CompileShader (snd (snd (create_shaders sample_world))) ''vertex_shader.vs'' 1 = Inr w' \<and>
     sh_source (the (shader_objs w' 1)) = ''void main(){}''"
proof -
  let ?w = "snd (snd (create_shaders sample_world))"
  have f: "files ?w ''vertex_shader.vs'' = Some ''void main(){}''"
    by (simp add: sample_world_def create_shaders_def glCreateShader_def printf_def Let_def)
  have o: "shader_objs ?w 1 = Some \<lparr>sh_type = GL_VERTEX_SHADER, sh_source = [], sh_compiled = False,
      sh_log = [], sh_delete_flag = False\<rparr>"
    by (simp add: sample_world_def create_shaders_def glCreateShader_def printf_def Let_def)
  have "\<exists>w'. CompileShader ?w ''vertex_shader.vs'' 1 = Inr w'"
    by (simp add: sample_world_def create_shaders_def glCreateShader_def printf_def Let_def
        CompileShader_def readFile_def glShaderSource_def glCompileShader_def upd_shader_def
        shader_compiled_def shader_log_def info_log_length_def)
  then obtain w' where c: "CompileShader ?w ''vertex_shader.vs'' 1 = Inr w'" ..
  from CompileShader_source [OF c f o] c show ?thesis by auto
qed

text \<open>
  C17. A failed compile that leaves no log makes \<open>CompileShader\<close> print a
  zero-length buffer that was never written: the run has no defined
  output from then on.
\<close>

theorem CompileShader_empty_log:
  assumes "files w path = Some c" and "shader_objs w sid = Some s"
    and "compiler w (sh_type s) (takeWhile (\<lambda>ch. ch \<noteq> NUL) c) = (False, [])"
  shows "CompileShader w path sid = Inl Uninitialised_log"
  using assms
  by (simp add: CompileShader_def readFile_def printf_def glShaderSource_def glCompileShader_def
      upd_shader_def shader_compiled_def shader_log_def info_log_length_def c_str_buffer Let_def)

theorem CompileShader_empty_log_witness:
  "CompileShader (snd (snd (create_shaders (sample_world\<lparr>compiler := \<lambda>_ _. (False, [])\<rparr>))))
     ''vertex_shader.vs'' 1 = Inl Uninitialised_log"
proof -
  let ?w = "snd (snd (create_shaders (sample_world\<lparr>compiler := \<lambda>_ _. (False, [])\<rparr>)))"
  have f: "files ?w ''vertex_shader.vs'' = Some ''void main(){}''"
    by (simp add: sample_world_def create_shaders_def glCreateShader_def printf_def Let_def)
  have o: "shader_objs ?w 1 = Some \<lparr>sh_type = GL_VERTEX_SHADER, sh_source = [], sh_compiled = False,
      sh_log = [], sh_delete_flag = False\<rparr>"
    by (simp add: sample_world_def create_shaders_def glCreateShader_def printf_def Let_def)
  have c: "compiler ?w GL_VERTEX_SHADER (takeWhile (\<lambda>ch. ch \<noteq> NUL) ''void main(){}'') = (False, [])"
    by (simp add: sample_world_def create_shaders_def glCreateShader_def printf_def Let_def)
  from CompileShader_empty_log [OF f o] c show ?thesis by simp
qed

lemma CompileShader_missing_file:
  "files w path = None \<Longrightarrow> CompileShader w path sid = Inl (Null_file path)"
  by (simp add: CompileShader_def readFile_def)

lemma create_shaders_fields:
  assumes "create_shaders w = (vs, fs, w3)"
  shows "vs = next_name w \<and> fs = Suc (next_name w) \<and> next_name w3 = Suc (Suc (next_name w)) \<and>
    heap_live w3 = heap_live w \<and> files w3 = files w \<and> program_objs w3 = program_objs w \<and>
    compiler w3 = compiler w \<and> linker w3 = linker w \<and>
    shader_objs w3 vs \<noteq> None \<and> shader_objs w3 fs \<noteq> None"
  using assms by (auto simp: create_shaders_def glCreateShader_def printf_def Let_def)

lemma glDeleteShader_attached:
  "program_objs w pid = Some po \<Longrightarrow> sid \<in> set (attached po) \<Longrightarrow>
   glDeleteShader w sid = upd_shader w sid (\<lambda>s. s\<lparr>sh_delete_flag := True\<rparr>)"
proof -
  assume "program_objs w pid = Some po" and "sid \<in> set (attached po)"
  then have "attached_anywhere w sid" by (force simp: attached_anywhere_def)
  then show ?thesis by (simp add: glDeleteShader_def)
qed

lemma upd_shader_fields [simp]:
  "program_objs (upd_shader w sid f) = program_objs w" "heap_live (upd_shader w sid f) = heap_live w"
  "files (upd_shader w sid f) = files w"
  by (simp_all add: upd_shader_def)

lemma glLinkProgram_fields [simp]:
  "shader_objs (glLinkProgram w pid) = shader_objs w" "heap_live (glLinkProgram w pid) = heap_live w"
  "files (glLinkProgram w pid) = files w"
  by (simp_all add: glLinkProgram_def upd_program_def)

lemma glLinkProgram_attached:
  "program_objs w q = Some po \<Longrightarrow>
   \<exists>po'. program_objs (glLinkProgram w pid) q = Some po' \<and> attached po' = attached po"
  by (auto simp: glLinkProgram_def upd_program_def Let_def prod.case_eq_if)

lemma glLinkProgram_linked:
  "program_objs w pid = Some po \<Longrightarrow>
   \<exists>po'. program_objs (glLinkProgram w pid) pid = Some po' \<and> attached po' = attached po \<and>
     (\<exists>xs. linked po' = fst (linker w xs))"
  by (auto simp: glLinkProgram_def upd_program_def Let_def prod.case_eq_if)

lemma link_program_fields:
  assumes "link_program w5 vs fs = (p, w')"
  shows "p = next_name w5 \<and> heap_live w' = heap_live w5 \<and> files w' = files w5 \<and>
    (\<exists>po. program_objs w' p = Some po \<and> attached po = [vs, fs] \<and>
       (\<exists>xs. linked po = fst (linker w5 xs))) \<and>
    (\<forall>sid \<in> {vs, fs}. shader_objs w' sid = map_option (\<lambda>s. s\<lparr>sh_delete_flag := True\<rparr>) (shader_objs w5 sid))"
proof -
  let ?p = "next_name w5"
  define w9 where "w9 = glAttachShader (glAttachShader (snd (glCreateProgram (printf w5
    (''Create and linking program'' @ [NL])))) ?p vs) ?p fs"
  define w10 where "w10 = glLinkProgram w9 ?p"
  define w11 where "w11 = (if 0 < info_log_length (program_log w10 ?p)
                           then printf w10 (program_log w10 ?p @ [NL]) else w10)"
  have l: "link_program w5 vs fs = (?p, glDeleteShader (glDeleteShader w11 vs) fs)"
    by (simp add: link_program_def glCreateProgram_def printf_def Let_def w9_def w10_def w11_def)
  have "\<exists>po. program_objs w9 ?p = Some po \<and> attached po = [vs, fs]"
    and s9: "shader_objs w9 = shader_objs w5" and h9: "heap_live w9 = heap_live w5"
    and f9: "files w9 = files w5" and l9: "linker w9 = linker w5"
    by (simp_all add: w9_def glCreateProgram_def glAttachShader_def upd_program_def printf_def)
  then obtain po where "program_objs w10 ?p = Some po" "attached po = [vs, fs]"
    and "\<exists>xs. linked po = fst (linker w5 xs)"
    unfolding w10_def by (metis glLinkProgram_linked)
  moreover have "program_objs w11 = program_objs w10" by (simp add: w11_def printf_def)
  ultimately have po: "program_objs w11 ?p = Some po" "attached po = [vs, fs]"
    and lk: "\<exists>xs. linked po = fst (linker w5 xs)" by simp_all
  have s11: "shader_objs w11 = shader_objs w5" and "heap_live w11 = heap_live w5"
    and "files w11 = files w5"
    using s9 h9 f9 by (simp_all add: w11_def w10_def printf_def)
  let ?w12 = "glDeleteShader w11 vs"
  have w12: "?w12 = upd_shader w11 vs (\<lambda>s. s\<lparr>sh_delete_flag := True\<rparr>)"
    using po by (simp add: glDeleteShader_attached)
  have "program_objs ?w12 ?p = Some po" using po by (simp add: w12)
  then have "glDeleteShader ?w12 fs = upd_shader ?w12 fs (\<lambda>s. s\<lparr>sh_delete_flag := True\<rparr>)"
    using po by (simp add: glDeleteShader_attached)
  with assms l w12 po lk s11 \<open>heap_live w11 = heap_live w5\<close> \<open>files w11 = files w5\<close> show ?thesis
    by (auto simp: upd_shader_def option.map_comp comp_def)
qed

lemma LoadShaders_Inr:
  assumes "LoadShaders w vp fp = Inr (p, w')"
  obtains w3 w4 w5 where "create_shaders w = (next_name w, Suc (next_name w), w3)"
    "CompileShader w3 vp (next_name w) = Inr w4"
    "CompileShader w4 fp (Suc (next_name w)) = Inr w5"
    "link_program w5 (next_name w) (Suc (next_name w)) = (p, w')"
proof -
  obtain vs fs w3 where c: "create_shaders w = (vs, fs, w3)" by (cases "create_shaders w") auto
  with create_shaders_fields [OF c] have "vs = next_name w" "fs = Suc (next_name w)" by simp_all
  with c assms that show ?thesis
    by (auto simp: LoadShaders_def split: sum.splits)
qed

lemma LoadShaders_missing_vertex_file:
  "files w vp = None \<Longrightarrow> LoadShaders w vp fp = Inl (Null_file vp)"
proof -
  assume m: "files w vp = None"
  obtain vs fs w3 where c: "create_shaders w = (vs, fs, w3)" by (cases "create_shaders w") auto
  with create_shaders_fields [OF c] m have "CompileShader w3 vp vs = Inl (Null_file vp)"
    by (simp add: CompileShader_missing_file)
  with c show ?thesis by (simp add: LoadShaders_def)
qed

lemma CompileShader_ok:
  assumes "files w path = Some c" and "shader_objs w sid \<noteq> None"
    and "\<forall>t src. \<not> fst (compiler w t src) \<longrightarrow> snd (compiler w t src) \<noteq> []"
  shows "\<exists>w'. CompileShader w path sid = Inr w'"
  using assms
  by (auto simp: CompileShader_def readFile_def printf_def glShaderSource_def glCompileShader_def
      upd_shader_def shader_compiled_def shader_log_def info_log_length_def Let_def
      split: prod.splits) (metis fst_conv snd_conv)

lemma LoadShaders_ok:
  assumes "files w vp = Some cv" and "files w fp = Some cf"
    and ok: "\<forall>t src. \<not> fst (compiler w t src) \<longrightarrow> snd (compiler w t src) \<noteq> []"
  shows "\<exists>w'. LoadShaders w vp fp = Inr (Suc (Suc (next_name w)), w')"
proof -
  obtain vs fs w3 where c: "create_shaders w = (vs, fs, w3)" by (cases "create_shaders w") auto
  note f3 = create_shaders_fields [OF c]
  with assms obtain w4 where c4: "CompileShader w3 vp vs = Inr w4"
    using CompileShader_ok [of w3 vp cv vs] by auto
  note f4 = CompileShader_Inr [OF c4]
  from f3 f4 have "shader_objs w4 fs \<noteq> None" by auto
  with f3 f4 assms obtain w5 where c5: "CompileShader w4 fp fs = Inr w5"
    using CompileShader_ok [of w4 fp cf fs] by auto
  note f5 = CompileShader_Inr [OF c5]
  obtain p w' where l: "link_program w5 vs fs = (p, w')" by (cases "link_program w5 vs fs") auto
  from link_program_fields [OF l] f3 f4 f5 have "p = Suc (Suc (next_name w))" by auto
  with c c4 c5 l show ?thesis by (auto simp: LoadShaders_def)
qed

lemma LoadShaders_missing_fragment_file:
  assumes "files w vp = Some cv" and "files w fp = None"
    and ok: "\<forall>t src. \<not> fst (compiler w t src) \<longrightarrow> snd (compiler w t src) \<noteq> []"
  shows "LoadShaders w vp fp = Inl (Null_file fp)"
proof -
  obtain vs fs w3 where c: "create_shaders w = (vs, fs, w3)" by (cases "create_shaders w") auto
  note f3 = create_shaders_fields [OF c]
  with assms obtain w4 where c4: "CompileShader w3 vp vs = Inr w4"
    using CompileShader_ok [of w3 vp cv vs] by auto
  from CompileShader_Inr [OF c4] f3 assms(2) have "files w4 fp = None" by auto
  with c c4 show ?thesis by (simp add: LoadShaders_def CompileShader_missing_file)
qed

text \<open>
  C18. \<open>LoadShaders\<close> never tests the link status: with both files present
  and every failed compile explained in a log, it returns a program even
  when the driver's linker rejects every program, and that program is not
  linked.
\<close>

theorem LoadShaders_ignores_link_status:
  assumes "files w vp = Some cv" and "files w fp = Some cf"
    and ok: "\<forall>t src. \<not> fst (compiler w t src) \<longrightarrow> snd (compiler w t src) \<noteq> []"
    and rejects: "\<forall>xs. \<not> fst (linker w xs)"
  shows "\<exists>p w' po. LoadShaders w vp fp = Inr (p, w') \<and> program_objs w' p = Some po \<and> \<not> linked po"
proof -
  obtain w' where l: "LoadShaders w vp fp = Inr (Suc (Suc (next_name w)), w')"
    using LoadShaders_ok [OF assms(1-3)] by blast
  then obtain w3 w4 w5 where c: "create_shaders w = (next_name w, Suc (next_name w), w3)"
    and c4: "CompileShader w3 vp (next_name w) = Inr w4"
    and c5: "CompileShader w4 fp (Suc (next_name w)) = Inr w5"
    and lp: "link_program w5 (next_name w) (Suc (next_name w)) = (Suc (Suc (next_name w)), w')"
    by (rule LoadShaders_Inr)
  from create_shaders_fields [OF c] CompileShader_Inr [OF c4] CompileShader_Inr [OF c5]
  have "linker w5 = linker w" by auto
  with link_program_fields [OF lp] rejects l show ?thesis by auto
qed

theorem LoadShaders_ignores_link_status_witness:
  "\<exists>p w' po. LoadShaders (sample_world\<lparr>linker := \<lambda>_. (False, ''link error'')\<rparr>)
       ''vertex_shader.vs'' ''fragment_shader.fs'' = Inr (p, w') \<and> program_objs w' p = Some po \<and> \<not> linked po"
proof -
  let ?w = "sample_world\<lparr>linker := \<lambda>_. (False, ''link error'')\<rparr>"
  have h: "files ?w ''vertex_shader.vs'' = Some ''void main(){}''"
    "files ?w ''fragment_shader.fs'' = Some ''out vec4 c;''"
    "\<forall>t src. \<not> fst (compiler ?w t src) \<longrightarrow> snd (compiler ?w t src) \<noteq> []"
    "\<forall>xs. \<not> fst (linker ?w xs)"
    by (simp_all add: sample_world_def)
  from LoadShaders_ignores_link_status [OF h] show ?thesis .
qed

text \<open>
  C38. \<open>LoadShaders\<close> never frees the two buffers \<open>readFile\<close> allocates: a
  successful call leaves exactly both file sizes plus their terminators
  allocated.
\<close>

theorem LoadShaders_leaks_sources:
  assumes "LoadShaders w vp fp = Inr (p, w')"
  shows "\<exists>cv cf. files w vp = Some cv \<and> files w fp = Some cf \<and>
     heap_live w' = heap_live w + Suc (length cv) + Suc (length cf)"
proof -
  from assms obtain w3 w4 w5 where c: "create_shaders w = (next_name w, Suc (next_name w), w3)"
    and v: "CompileShader w3 vp (next_name w) = Inr w4"
    and f: "CompileShader w4 fp (Suc (next_name w)) = Inr w5"
    and l: "link_program w5 (next_name w) (Suc (next_name w)) = (p, w')"
    by (rule LoadShaders_Inr)
  from create_shaders_fields [OF c] CompileShader_Inr [OF v] CompileShader_Inr [OF f]
    link_program_fields [OF l]
  show ?thesis by auto
qed

text \<open>
  C39. After \<open>LoadShaders\<close> the new program holds the vertex and the fragment
  shader, in this order, and both shader objects are flagged for deletion, so
  they are freed with the program and do not leak.
\<close>

theorem LoadShaders_shaders_flagged:
  assumes "LoadShaders w vp fp = Inr (p, w')"
  shows "p = Suc (Suc (next_name w)) \<and>
    (\<exists>po. program_objs w' p = Some po \<and> attached po = [next_name w, Suc (next_name w)]) \<and>
    (\<exists>s. shader_objs w' (next_name w) = Some s \<and> sh_delete_flag s) \<and>
    (\<exists>s. shader_objs w' (Suc (next_name w)) = Some s \<and> sh_delete_flag s)"
proof -
  from assms obtain w3 w4 w5 where c: "create_shaders w = (next_name w, Suc (next_name w), w3)"
    and v: "CompileShader w3 vp (next_name w) = Inr w4"
    and f: "CompileShader w4 fp (Suc (next_name w)) = Inr w5"
    and l: "link_program w5 (next_name w) (Suc (next_name w)) = (p, w')"
    by (rule LoadShaders_Inr)
  from create_shaders_fields [OF c] CompileShader_Inr [OF v] CompileShader_Inr [OF f]
  have "next_name w5 = Suc (Suc (next_name w))"
    "shader_objs w5 (next_name w) \<noteq> None" "shader_objs w5 (Suc (next_name w)) \<noteq> None"
    by auto
  with link_program_fields [OF l] show ?thesis by auto
qed

theorem LoadShaders_leaks_sources_witness:
  "\<exists>p w'. LoadShaders sample_world ''vertex_shader.vs'' ''fragment_shader.fs'' = Inr (p, w') \<and>
     heap_live w' = 26"
proof -
  have "\<exists>p w'. LoadShaders sample_world ''vertex_shader.vs'' ''fragment_shader.fs'' = Inr (p, w')"
    by (simp add: sample_world_def LoadShaders_def create_shaders_def glCreateShader_def printf_def
        Let_def CompileShader_def readFile_def glShaderSource_def glCompileShader_def upd_shader_def
        shader_compiled_def shader_log_def info_log_length_def link_program_def split: prod.splits)
  then obtain p w' where l: "LoadShaders sample_world ''vertex_shader.vs'' ''fragment_shader.fs'' = Inr (p, w')"
    by blast
  from LoadShaders_leaks_sources [OF l] l show ?thesis
    by (auto simp: sample_world_def)
qed

theorem LoadShaders_shaders_flagged_witness:
  "\<exists>p w'. LoadShaders sample_world ''vertex_shader.vs'' ''fragment_shader.fs'' = Inr (p, w') \<and>
     p = 3 \<and> (\<exists>s. shader_objs w' 1 = Some s \<and> sh_delete_flag s)"
proof -
  have "\<exists>p w'. LoadShaders sample_world ''vertex_shader.vs'' ''fragment_shader.fs'' = Inr (p, w')"
    by (simp add: sample_world_def LoadShaders_def create_shaders_def glCreateShader_def printf_def
        Let_def CompileShader_def readFile_def glShaderSource_def glCompileShader_def upd_shader_def
        shader_compiled_def shader_log_def info_log_length_def link_program_def split: prod.splits)
  then obtain p w' where l: "LoadShaders sample_world ''vertex_shader.vs'' ''fragment_shader.fs'' = Inr (p, w')"
    by blast
  from LoadShaders_shaders_flagged [OF l] l show ?thesis
    by (auto simp: sample_world_def)
qed

end
