(* ===== verification/Viewport.thy ===== *)
theory Viewport
  imports Prelude
begin

text \<open>
  The camera of \<open>src/main.cpp\<close>: the globals \<open>resx, resy, dx, dy, minx, miny\<close>
  (lines 12--18) as the record \<open>viewport\<close>, their static initialisers as
  \<open>init_viewport\<close>, and the three computations the callbacks perform on them:
  \<open>resize\<close> (the arithmetic of \<open>windowsize_callback\<close>), \<open>pan\<close> (the
  \<open>FIRST_BUTTON\<close> branch of \<open>mousepos_callback\<close>) and \<open>zoom\<close> (the body of
  \<open>mousewheel_callback\<close>). Divisions by a resolution go through \<open>fdiv\<close>: a zero
  resolution is the fault \<open>Div_by_zero\<close> (NaN in the C program). The lemmas
  show the uniform per-pixel scale, the functional behaviour of each operation
  on every branch, and the algebra of pan and zoom (inverse, composition,
  fixed centre, strict shrinking and growing).
\<close>

record viewport =
  resx :: double
  resy :: double
  dx :: double
  dy :: double
  minx :: double
  miny :: double

text \<open>
  \<open>double dx = dy*resx/float(resy);\<close>: the width is derived from the
  height so that the start view has square pixels.
\<close>

definition init_viewport :: viewport where
  "init_viewport =
     (let resx0 = 1600; resy0 = 900; dy0 = 2
      in \<lparr>resx = resx0, resy = resy0, dx = dy0 * resx0 / resy0, dy = dy0,
          minx = -2.5, miny = -1.0\<rparr>)"

text \<open>
  \<open>windowsize_callback\<close>, lines 278--283: the world distance of one pixel is
  read from the old height before the resolution is overwritten, then both
  extents are rebuilt from it.
\<close>

definition resize :: "viewport \<Rightarrow> int \<Rightarrow> int \<Rightarrow> fp_fault + viewport" where
  "resize v width height =
     (case fdiv (dy v) (resy v) of
        Inl e \<Rightarrow> Inl e
      | Inr distance_per_pixel \<Rightarrow>
          (let v1 = v\<lparr>resx := of_int width, resy := of_int height\<rparr>
           in Inr (v1\<lparr>dx := distance_per_pixel * resx v1,
                     dy := distance_per_pixel * resy v1\<rparr>)))"

text \<open>
  \<open>mousepos_callback\<close>, lines 321--322, with the screen deltas
  \<open>xpos - prevx\<close> and \<open>ypos - prevy\<close> as arguments: screen y grows
  downwards, world y upwards, hence the opposite signs.
\<close>

definition pan :: "viewport \<Rightarrow> double \<Rightarrow> double \<Rightarrow> fp_fault + viewport" where
  "pan v ddx ddy =
     (case fdiv (ddx * dx v) (resx v) of
        Inl e \<Rightarrow> Inl e
      | Inr sx \<Rightarrow>
          (case fdiv (ddy * dy v) (resy v) of
             Inl e \<Rightarrow> Inl e
           | Inr sy \<Rightarrow> Inr (v\<lparr>minx := minx v - sx, miny := miny v + sy\<rparr>)))"

text \<open>
  \<open>mousewheel_callback\<close>, lines 338--343: the origin moves by half of the
  lost extent (computed from the old extents), then the extents shrink.
\<close>

definition zoom :: "viewport \<Rightarrow> double \<Rightarrow> viewport" where
  "zoom v yoffset =
     (let zoomFactor = 0.95 powr yoffset
      in v\<lparr>minx := minx v + dx v * (1 - zoomFactor) / 2,
           miny := miny v + dy v * (1 - zoomFactor) / 2,
           dx := dx v * zoomFactor,
           dy := dy v * zoomFactor\<rparr>)"

declare resize_def [handler_defs] pan_def [handler_defs] zoom_def [handler_defs]

subsection \<open>Derived quantities and invariants\<close>

text \<open>
  \<open>uniform_scale\<close> is the spec's \<open>dx / resx = dy / resy\<close> with the
  denominators multiplied out, so that it also speaks of a zero resolution.
\<close>

definition uniform_scale :: "viewport \<Rightarrow> bool" where
  "uniform_scale v \<longleftrightarrow> dx v * resy v = dy v * resx v"

definition wf_viewport :: "viewport \<Rightarrow> bool" where
  "wf_viewport v \<longleftrightarrow>
     0 < resx v \<and> 0 < resy v \<and> 0 < dx v \<and> 0 < dy v \<and> uniform_scale v"

definition per_pixel :: "viewport \<Rightarrow> double" where
  "per_pixel v = dy v / resy v"

definition center :: "viewport \<Rightarrow> double \<times> double" where
  "center v = (minx v + dx v / 2, miny v + dy v / 2)"

text \<open>
  Screen to world: the spec puts \<open>(minx, miny)\<close> at the lower-left visible
  pixel, and GLFW reports cursor positions in pixels from the top-left
  corner, so the cursor at \<open>(px, py)\<close> shows the world point below.
\<close>

definition world_at :: "viewport \<Rightarrow> double \<Rightarrow> double \<Rightarrow> double \<times> double" where
  "world_at v px py = (minx v + px * dx v / resx v, miny v + (resy v - py) * dy v / resy v)"

text \<open>
  The abstract contract of the scroll handler (spec section 4.1): scale the
  visible rectangle by a factor \<open>f\<close> about its centre.
\<close>

definition scale_about_center :: "viewport \<Rightarrow> double \<Rightarrow> viewport" where
  "scale_about_center v f =
     (let (cx, cy) = center v
      in v\<lparr>minx := cx - dx v * f / 2, miny := cy - dy v * f / 2,
           dx := dx v * f, dy := dy v * f\<rparr>)"

lemma uniform_scale_div:
  "resx v \<noteq> 0 \<Longrightarrow> resy v \<noteq> 0 \<Longrightarrow> uniform_scale v \<longleftrightarrow> dx v / resx v = dy v / resy v"
  by (simp add: uniform_scale_def field_simps)

subsection \<open>Resize\<close>

lemma resize_Inr_iff:
  "resize v w h = Inr v' \<longleftrightarrow>
     resy v \<noteq> 0 \<and>
     v' = v\<lparr>resx := of_int w, resy := of_int h,
            dx := dy v / resy v * of_int w, dy := dy v / resy v * of_int h\<rparr>"
  by (auto simp: resize_def fdiv_def)


text \<open>
  C2. After a resize to a non-degenerate size the pixels are square and keep
  the world distance per pixel the height had before: resizing never
  stretches the picture.
\<close>

theorem resize_keeps_per_pixel:
  assumes "resize v w h = Inr v'" and "w \<noteq> 0" and "h \<noteq> 0"
  shows "dx v' / resx v' = per_pixel v \<and> dy v' / resy v' = per_pixel v"
  using assms by (auto simp: resize_Inr_iff per_pixel_def)

theorem resize_keeps_per_pixel_witness:
  "resize init_viewport 800 450 = Inr (init_viewport\<lparr>resx := 800, resy := 450, dx := 16 / 9, dy := 1\<rparr>) \<and>
   dx (init_viewport\<lparr>resx := 800, resy := 450, dx := 16 / 9, dy := 1\<rparr>) / resx (init_viewport\<lparr>resx := 800, resy := 450, dx := 16 / 9, dy := 1\<rparr>) = per_pixel init_viewport"
proof -
  have r: "resize init_viewport 800 450 = Inr (init_viewport\<lparr>resx := 800, resy := 450, dx := 16 / 9, dy := 1\<rparr>)"
    by (simp add: resize_def init_viewport_def)
  have "dx (init_viewport\<lparr>resx := 800, resy := 450, dx := 16 / 9, dy := 1\<rparr>) / resx (init_viewport\<lparr>resx := 800, resy := 450, dx := 16 / 9, dy := 1\<rparr>) = per_pixel init_viewport"
    using resize_keeps_per_pixel [OF r] by simp
  with r show ?thesis by simp
qed


text \<open>
  C24. A successful resize re-establishes square pixels, whatever the state
  before.
\<close>

theorem resize_uniform_scale: "resize v w h = Inr v' \<Longrightarrow> uniform_scale v'"
  by (auto simp: resize_Inr_iff uniform_scale_def)

theorem resize_uniform_scale_witness:
  "resize init_viewport 800 450 = Inr (init_viewport\<lparr>resx := 800, resy := 450, dx := 16 / 9, dy := 1\<rparr>) \<and> uniform_scale (init_viewport\<lparr>resx := 800, resy := 450, dx := 16 / 9, dy := 1\<rparr>)"
proof -
  have r: "resize init_viewport 800 450 = Inr (init_viewport\<lparr>resx := 800, resy := 450, dx := 16 / 9, dy := 1\<rparr>)"
    by (simp add: resize_def init_viewport_def)
  with resize_uniform_scale [OF r] show ?thesis by simp
qed


text \<open>
  C20. \<open>windowsize_callback\<close> divides by the old height: it faults (the C
  code computes NaN) exactly when that height is zero.
\<close>

theorem resize_fault_iff: "resize v w h = Inl e \<longleftrightarrow> resy v = 0"
  by (cases e) (auto simp: resize_def fdiv_def)

lemma resize_after_zero_height:
  assumes "resize v w 0 = Inr v'"
  shows "resize v' w' h' = Inl Div_by_zero"
proof -
  from assms have "resy v' = 0" by (simp add: resize_Inr_iff)
  then show ?thesis by (simp add: resize_def)
qed


text \<open>
  C25. A resize to a positive size keeps a well-formed viewport well-formed.
\<close>

theorem resize_wf:
  assumes "wf_viewport v" and "0 < w" and "0 < h"
  shows "\<exists>v'. resize v w h = Inr v' \<and> wf_viewport v'"
  using assms by (auto simp: resize_Inr_iff wf_viewport_def uniform_scale_def)

theorem resize_wf_witness:
  "wf_viewport init_viewport \<and> (0::int) < 800 \<and> (0::int) < 450 \<and>
   (\<exists>v'. resize init_viewport 800 450 = Inr v' \<and> wf_viewport v')"
proof -
  have "wf_viewport init_viewport"
    by (simp add: wf_viewport_def uniform_scale_def init_viewport_def)
  moreover have "(0::int) < 800" and "(0::int) < 450" by simp_all
  ultimately show ?thesis using resize_wf [of init_viewport 800 450] by simp
qed

subsection \<open>Pan\<close>

lemma pan_Inr_iff:
  "pan v a b = Inr v' \<longleftrightarrow>
     resx v \<noteq> 0 \<and> resy v \<noteq> 0 \<and>
     v' = v\<lparr>minx := minx v - a * dx v / resx v, miny := miny v + b * dy v / resy v\<rparr>"
  by (auto simp: pan_def fdiv_def)

lemma pan_extents:
  "pan v a b = Inr v' \<Longrightarrow>
     resx v' = resx v \<and> resy v' = resy v \<and> dx v' = dx v \<and> dy v' = dy v"
  by (auto simp: pan_Inr_iff)


text \<open>
  C21. The pan divides by both resolutions: it faults exactly when one of
  them is zero.
\<close>

theorem pan_fault_iff: "pan v a b = Inl e \<longleftrightarrow> resx v = 0 \<or> resy v = 0"
  by (cases e) (auto simp: pan_def fdiv_def)


lemma pan_world_at:
  "pan v a b = Inr v' \<Longrightarrow> world_at v' (px + a) (py + b) = world_at v px py"
  by (auto simp: pan_Inr_iff world_at_def field_simps)

text \<open>
  C5. A pan by the pointer's delta keeps the grabbed world point under the
  pointer: the point shown at \<open>(px, py)\<close> before is shown at
  \<open>(px + a, py + b)\<close> after, with the screen's y axis pointing down.
\<close>

theorem pan_keeps_grabbed_point:
  assumes "pan v a b = Inr v'"
  shows "world_at v' (px + a) (py + b) = world_at v px py"
proof -
  from assms have "resx v \<noteq> 0" "resy v \<noteq> 0"
    and v': "v' = v\<lparr>minx := minx v - a * dx v / resx v, miny := miny v + b * dy v / resy v\<rparr>"
    by (simp_all add: pan_Inr_iff)
  then show ?thesis by (simp add: world_at_def field_simps)
qed

theorem pan_keeps_grabbed_point_witness:
  "\<exists>v'. pan init_viewport 10 5 = Inr v' \<and> world_at v' (100 + 10) (100 + 5) = world_at init_viewport 100 100"
proof -
  have "\<exists>v'. pan init_viewport 10 5 = Inr v'" by (simp add: pan_def init_viewport_def)
  then obtain v' where p: "pan init_viewport 10 5 = Inr v'" ..
  from p pan_keeps_grabbed_point [OF p, of 100 100] show ?thesis by blast
qed

subsection \<open>Zoom\<close>

lemma world_at_scale:
  "world_at (scale_about_center v f) px py =
     (minx v + dx v / 2 - dx v * f / 2 + px * (dx v * f) / resx v,
      miny v + dy v / 2 - dy v * f / 2 + (resy v - py) * (dy v * f) / resy v)"
  by (simp add: world_at_def scale_about_center_def center_def Let_def)

lemma scaled_offset_eq_iff:
  fixes m d r p f :: real
  assumes "d \<noteq> 0" "r \<noteq> 0" "f \<noteq> 1"
  shows "m + d / 2 - d * f / 2 + p * (d * f) / r = m + p * d / r \<longleftrightarrow> p = r / 2"
proof -
  have "(m + d / 2 - d * f / 2 + p * (d * f) / r) - (m + p * d / r) = d * (1 - f) * (r - 2 * p) / (2 * r)"
    using assms(2) by (simp add: field_simps)
  moreover have "d * (1 - f) * (r - 2 * p) / (2 * r) = 0 \<longleftrightarrow> p = r / 2"
    using assms by auto
  ultimately show ?thesis by (metis eq_iff_diff_eq_0)
qed

lemma scale_fixed_point_iff:
  assumes "f \<noteq> 1" and "resx v \<noteq> 0" and "resy v \<noteq> 0" and "dx v \<noteq> 0" and "dy v \<noteq> 0"
  shows "world_at (scale_about_center v f) px py = world_at v px py \<longleftrightarrow>
         px = resx v / 2 \<and> py = resy v / 2"
proof -
  have "world_at (scale_about_center v f) px py = world_at v px py \<longleftrightarrow>
        (minx v + dx v / 2 - dx v * f / 2 + px * (dx v * f) / resx v = minx v + px * dx v / resx v) \<and>
        (miny v + dy v / 2 - dy v * f / 2 + (resy v - py) * (dy v * f) / resy v =
           miny v + (resy v - py) * dy v / resy v)"
    unfolding world_at_scale by (simp only: world_at_def prod.inject)
  also have "\<dots> \<longleftrightarrow> px = resx v / 2 \<and> resy v - py = resy v / 2"
    by (simp only: scaled_offset_eq_iff [OF assms(4,2,1)] scaled_offset_eq_iff [OF assms(5,3,1)])
  also have "\<dots> \<longleftrightarrow> px = resx v / 2 \<and> py = resy v / 2" by auto
  finally show ?thesis .
qed


lemma scale_center: "center (scale_about_center v f) = center v"
  by (simp add: scale_about_center_def center_def)

lemma scale_compose:
  "scale_about_center (scale_about_center v f) g = scale_about_center v (f * g)"
  by (simp add: scale_about_center_def center_def algebra_simps)

lemma scale_one: "scale_about_center v 1 = v"
  by (simp add: scale_about_center_def center_def)

lemma scale_extents [simp]:
  "dx (scale_about_center v f) = dx v * f" "dy (scale_about_center v f) = dy v * f"
  "resx (scale_about_center v f) = resx v" "resy (scale_about_center v f) = resy v"
  by (simp_all add: scale_about_center_def center_def)

text \<open>
  The scroll handler implements the abstract contract: the C formula is the
  scaling about the centre by \<open>0.95 powr yoffset\<close>.
\<close>

lemma zoom_scale_eq: "zoom v s = scale_about_center v (0.95 powr s)"
proof -
  define f :: real where "f = 0.95 powr s"
  have "zoom v s = v\<lparr>minx := minx v + dx v * (1 - f) / 2,
           miny := miny v + dy v * (1 - f) / 2, dx := dx v * f, dy := dy v * f\<rparr>"
    by (simp only: zoom_def Let_def f_def)
  also have "\<dots> = scale_about_center v f"
    by (simp add: scale_about_center_def center_def algebra_simps diff_divide_distrib)
  finally show ?thesis by (simp only: f_def)
qed


text \<open>
  C3. Scrolling keeps the centre of the view fixed and scales both extents by
  \<open>0.95 powr yoffset\<close>: the zoom is anchored at the centre, not at the cursor.
\<close>

theorem zoom_center:
  "center (zoom v s) = center v \<and>
   dx (zoom v s) = dx v * 0.95 powr s \<and> dy (zoom v s) = dy v * 0.95 powr s"
  by (simp add: zoom_scale_eq scale_center)


text \<open>A scroll offset of zero changes nothing.\<close>

theorem zoom_zero: "zoom v 0 = v"
  by (simp add: zoom_def Let_def)


text \<open>
  C23. Two scrolls compose into one scroll by the sum of the offsets.
\<close>

theorem zoom_compose: "zoom (zoom v s) t = zoom v (s + t)"
  by (simp add: zoom_scale_eq scale_compose powr_add)


text \<open>
  C22. The zoom is anchored at the centre of the window: a non-zero scroll
  keeps the world point under the cursor in place exactly when the cursor
  is at the centre pixel, so it does not zoom towards the cursor.
\<close>

theorem zoom_fixed_point_iff:
  assumes "s \<noteq> 0" and "resx v \<noteq> 0" and "resy v \<noteq> 0" and "dx v \<noteq> 0" and "dy v \<noteq> 0"
  shows "world_at (zoom v s) px py = world_at v px py \<longleftrightarrow> px = resx v / 2 \<and> py = resy v / 2"
  using scale_fixed_point_iff [OF zoom_base_ne_one [OF assms(1)] assms(2-5)]
  by (simp add: zoom_scale_eq)

theorem zoom_fixed_point_iff_witness:
  "world_at (zoom init_viewport 1) 800 450 = world_at init_viewport 800 450 \<and>
   world_at (zoom init_viewport 1) 0 0 \<noteq> world_at init_viewport 0 0"
proof -
  have h: "(1::real) \<noteq> 0" "resx init_viewport \<noteq> 0" "resy init_viewport \<noteq> 0"
    "dx init_viewport \<noteq> 0" "dy init_viewport \<noteq> 0"
    by (simp_all add: init_viewport_def)
  have "resx init_viewport = 1600" "resy init_viewport = 900" by (simp_all add: init_viewport_def)
  with zoom_fixed_point_iff [OF h, of 800 450] zoom_fixed_point_iff [OF h, of 0 0]
  show ?thesis by simp
qed

text \<open>
  C7. Scrolling by a positive offset strictly shrinks both extents.
\<close>

theorem zoom_in_shrinks:
  assumes "0 < dx v" and "0 < dy v" and "0 < s"
  shows "dx (zoom v s) < dx v \<and> dy (zoom v s) < dy v"
  using assms zoom_base_lt_one [OF assms(3)] by (simp add: zoom_scale_eq)

theorem zoom_in_shrinks_witness:
  "0 < dx init_viewport \<and> 0 < dy init_viewport \<and> (0::real) < 1 \<and>
   dx (zoom init_viewport 1) < dx init_viewport \<and> dy (zoom init_viewport 1) < dy init_viewport"
proof -
  have w: "0 < dx init_viewport" "0 < dy init_viewport"
    by (simp_all add: init_viewport_def)
  have "(0::real) < 1" by simp
  with w zoom_in_shrinks [OF w this] show ?thesis by simp
qed


text \<open>
  C8. Scrolling by a negative offset strictly grows both extents.
\<close>

theorem zoom_out_grows:
  assumes "0 < dx v" and "0 < dy v" and "s < 0"
  shows "dx v < dx (zoom v s) \<and> dy v < dy (zoom v s)"
  using assms zoom_base_gt_one [OF assms(3)] by (simp add: zoom_scale_eq)

theorem zoom_out_grows_witness:
  "0 < dx init_viewport \<and> 0 < dy init_viewport \<and> (-1::real) < 0 \<and>
   dx init_viewport < dx (zoom init_viewport (-1)) \<and> dy init_viewport < dy (zoom init_viewport (-1))"
proof -
  have w: "0 < dx init_viewport" "0 < dy init_viewport"
    by (simp_all add: init_viewport_def)
  have "(-1::real) < 0" by simp
  with w zoom_out_grows [OF w this] show ?thesis by simp
qed


text \<open>
  C27. A scroll keeps a well-formed viewport well-formed.
\<close>

theorem zoom_wf: "wf_viewport v \<Longrightarrow> wf_viewport (zoom v s)"
  by (simp add: zoom_scale_eq wf_viewport_def uniform_scale_def)

theorem zoom_wf_witness: "wf_viewport init_viewport \<and> wf_viewport (zoom init_viewport 1)"
proof -
  have w: "wf_viewport init_viewport"
    by (simp add: wf_viewport_def uniform_scale_def init_viewport_def)
  with zoom_wf [OF w, of 1] show ?thesis by simp
qed

end
