(* ===== verification/GL.thy ===== *)
theory GL
  imports Prelude
begin

text \<open>
  The part of the OpenGL and GLFW state that \<open>src/main.cpp\<close> writes and that
  its behaviour is judged by: the uniform variables of the linked shader
  program (looked up by name with \<open>glGetUniformLocation\<close>, \<open>-1\<close> when the
  program has no such active uniform), the uniform values in force at each
  \<open>glDrawArrays\<close>, the number of \<open>glfwSwapBuffers\<close> calls, the rectangle of
  the last \<open>glViewport\<close> and the window's close flag. Shader compilation,
  buffers and the pixels themselves are outside the model.
\<close>

datatype uval = UF double | UI int

type_synonym uniform_store = "int \<Rightarrow> uval option"

record gl_state =
  uniform_loc :: "string \<Rightarrow> int"
  uniforms :: uniform_store
  frames :: "uniform_store list"
  swaps :: nat
  gl_viewport :: "int \<times> int \<times> int \<times> int"
  should_close :: bool

text \<open>
  The collaborator state right after \<open>initGL\<close> and \<open>LoadShaders\<close>: the
  linked program's uniform locations, nothing uploaded or drawn yet, the
  1600x900 window open.
\<close>

definition init_gl :: "(string \<Rightarrow> int) \<Rightarrow> gl_state" where
  "init_gl locs =
     \<lparr>uniform_loc = locs, uniforms = Map.empty, frames = [], swaps = 0,
      gl_viewport = (0, 0, 1600, 900), should_close = False\<rparr>"

text \<open>\<open>if (loc != -1) glUniform1f(loc, v)\<close>: one guarded upload.\<close>

definition set_uniform :: "gl_state \<Rightarrow> string \<Rightarrow> uval \<Rightarrow> gl_state" where
  "set_uniform g name val =
     (let loc = uniform_loc g name
      in if loc \<noteq> -1 then g\<lparr>uniforms := (uniforms g)(loc \<mapsto> val)\<rparr> else g)"

text \<open>\<open>glDrawArrays\<close> renders with the uniforms in force; \<open>glfwSwapBuffers\<close>.\<close>

definition draw_arrays :: "gl_state \<Rightarrow> gl_state" where
  "draw_arrays g = g\<lparr>frames := frames g @ [uniforms g]\<rparr>"

definition swap_buffers :: "gl_state \<Rightarrow> gl_state" where
  "swap_buffers g = g\<lparr>swaps := Suc (swaps g)\<rparr>"

lemma set_uniform_loc [simp]: "uniform_loc (set_uniform g n u) = uniform_loc g"
  by (simp add: set_uniform_def Let_def)

lemma set_uniform_frames [simp]:
  "frames (set_uniform g n u) = frames g" "swaps (set_uniform g n u) = swaps g"
  "should_close (set_uniform g n u) = should_close g"
  "gl_viewport (set_uniform g n u) = gl_viewport g"
  by (simp_all add: set_uniform_def Let_def)

lemma uniforms_set_uniform:
  "uniforms (set_uniform g n u) =
     (if uniform_loc g n \<noteq> -1 then (uniforms g)(uniform_loc g n \<mapsto> u) else uniforms g)"
  by (simp add: set_uniform_def Let_def)

end
