(* ===== verification/Input.thy ===== *)
theory Input
  imports Viewport GL
begin

unbundle bit_operations_syntax

text \<open>
  The Input Translator of \<open>src/main.cpp\<close>: the gesture globals
  \<open>prevx, prevy, clickedButtons\<close> (lines 11 and 20) as the record \<open>input\<close>,
  the program state as the record \<open>app\<close>, and the five GLFW callbacks
  (\<open>windowsize_callback\<close>, \<open>key_callback\<close>, \<open>mousebutton_callback\<close>,
  \<open>mousepos_callback\<close>, \<open>mousewheel_callback\<close>, lines 277--344) as functions
  on \<open>app\<close>. \<open>glfwPollEvents\<close> delivers pending events to the callbacks
  registered in \<open>initGL\<close> (lines 265--269): that dispatch is
  \<open>handle_event\<close>, and a batch of events is \<open>handle_events\<close>. The
  reachable program states are an inductive predicate; the lemmas show the
  bit-level behaviour of the button mask and its abstraction to a set of
  held buttons, the drag gesture, the key bindings, the invariants every
  reachable state satisfies, and that the events of a visible window never
  make a handler fault.
\<close>

text \<open>GLFW's constants, from \<open>GLFW/glfw3.h\<close>.\<close>

definition GLFW_PRESS :: int where "GLFW_PRESS = 1"
definition GLFW_KEY_ESCAPE :: int where "GLFW_KEY_ESCAPE = 256"
definition GLFW_KEY_SPACE :: int where "GLFW_KEY_SPACE = 32"

text \<open>\<open>enum buttonMaps\<close> (line 21) and the mask each enumerator stands for.\<close>

datatype buttonMaps =
  FIRST_BUTTON | SECOND_BUTTON | THIRD_BUTTON | FOURTH_BUTTON | FIFTH_BUTTON | NO_BUTTON

primrec button_mask :: "buttonMaps \<Rightarrow> c_int" where
  "button_mask FIRST_BUTTON = 1"
| "button_mask SECOND_BUTTON = 2"
| "button_mask THIRD_BUTTON = 4"
| "button_mask FOURTH_BUTTON = 8"
| "button_mask FIFTH_BUTTON = 16"
| "button_mask NO_BUTTON = 0"

record input =
  prevx :: double
  prevy :: double
  clickedButtons :: c_int

definition init_input :: input where
  "init_input = \<lparr>prevx = -1, prevy = -1, clickedButtons = 0\<rparr>"

record app =
  vp :: viewport
  inp :: input
  drawMandelbrot :: int
  gl :: gl_state

text \<open>The program state when \<open>main\<close> enters its loop, over a GL state.\<close>

definition init_app :: "gl_state \<Rightarrow> app" where
  "init_app g = \<lparr>vp = init_viewport, inp = init_input, drawMandelbrot = 1, gl = g\<rparr>"

subsection \<open>The callbacks\<close>

text \<open>
  \<open>key_callback\<close>: two independent \<open>if\<close>s. Escape closes on any action;
  space toggles on any non-zero action, that is on press and on key repeat.
\<close>

definition key_callback :: "app \<Rightarrow> int \<Rightarrow> int \<Rightarrow> int \<Rightarrow> int \<Rightarrow> app" where
  "key_callback a key scancode action mods =
     (let a1 = (if key = GLFW_KEY_ESCAPE
                then a\<lparr>gl := (gl a)\<lparr>should_close := True\<rparr>\<rparr> else a)
      in if key = GLFW_KEY_SPACE \<and> action \<noteq> 0
         then a1\<lparr>drawMandelbrot := 1 - drawMandelbrot a1\<rparr> else a1)"

text \<open>
  Lines 301--304: \<open>clickedButtons |= (1 << button)\<close> on a press,
  \<open>clickedButtons &= ~(1 << button)\<close> on anything else. GLFW reports
  buttons \<open>0..GLFW_MOUSE_BUTTON_LAST = 7\<close>, so the shift stays inside the
  32-bit \<open>int\<close>.
\<close>

definition update_buttons :: "c_int \<Rightarrow> nat \<Rightarrow> int \<Rightarrow> c_int" where
  "update_buttons cb button action =
     (if action = GLFW_PRESS then cb OR push_bit button 1
      else cb AND NOT (push_bit button 1))"

text \<open>
  \<open>mousebutton_callback\<close>: the cursor position is queried
  (\<open>glfwGetCursorPos\<close>, passed in as \<open>cursor\<close>) on every button event, then
  the mask is updated; the \<open>else if\<close> chain of lines 306--316 has empty
  branches and changes nothing.
\<close>

definition mousebutton_callback ::
  "app \<Rightarrow> double \<times> double \<Rightarrow> nat \<Rightarrow> int \<Rightarrow> int \<Rightarrow> app" where
  "mousebutton_callback a cursor button action mods =
     (let i1 = (inp a)\<lparr>prevx := fst cursor, prevy := snd cursor\<rparr>
      in a\<lparr>inp := i1\<lparr>clickedButtons := update_buttons (clickedButtons i1) button action\<rparr>\<rparr>)"

text \<open>
  \<open>mousepos_callback\<close>: only the \<open>FIRST_BUTTON\<close> branch does anything; it
  pans by the delta since the last processed position and then records the
  new position.
\<close>

definition mousepos_callback :: "app \<Rightarrow> double \<Rightarrow> double \<Rightarrow> fp_fault + app" where
  "mousepos_callback a xpos ypos =
     (if clickedButtons (inp a) AND button_mask FIRST_BUTTON \<noteq> 0 then
        (case pan (vp a) (xpos - prevx (inp a)) (ypos - prevy (inp a)) of
           Inl e \<Rightarrow> Inl e
         | Inr v' \<Rightarrow> Inr (a\<lparr>vp := v', inp := (inp a)\<lparr>prevx := xpos, prevy := ypos\<rparr>\<rparr>))
      else Inr a)"

definition mousewheel_callback :: "app \<Rightarrow> double \<Rightarrow> double \<Rightarrow> app" where
  "mousewheel_callback a xoffset yoffset = a\<lparr>vp := zoom (vp a) yoffset\<rparr>"

text \<open>\<open>windowsize_callback\<close>: the resize, then \<open>glViewport(0, 0, resx, resy)\<close>.\<close>

definition windowsize_callback :: "app \<Rightarrow> int \<Rightarrow> int \<Rightarrow> fp_fault + app" where
  "windowsize_callback a width height =
     (case resize (vp a) width height of
        Inl e \<Rightarrow> Inl e
      | Inr v' \<Rightarrow>
          Inr (a\<lparr>vp := v',
                 gl := (gl a)\<lparr>gl_viewport := (0, 0, c_trunc (resx v'), c_trunc (resy v'))\<rparr>\<rparr>))"

subsection \<open>Event dispatch\<close>

datatype event =
    WindowSize int int
  | Key int int int int
  | MouseButton nat int int "double \<times> double"
  | CursorPos double double
  | Scroll double double

fun handle_event :: "app \<Rightarrow> event \<Rightarrow> fp_fault + app" where
  "handle_event a (WindowSize w h) = windowsize_callback a w h"
| "handle_event a (Key k sc act m) = Inr (key_callback a k sc act m)"
| "handle_event a (MouseButton b act m cur) = Inr (mousebutton_callback a cur b act m)"
| "handle_event a (CursorPos x y) = mousepos_callback a x y"
| "handle_event a (Scroll xo yo) = Inr (mousewheel_callback a xo yo)"

text \<open>
  One \<open>glfwPollEvents\<close>: the pending events in order. A fault ends the
  modelled run: the C program goes on with a NaN field that no later
  handler makes finite again.
\<close>

fun handle_events :: "app \<Rightarrow> event list \<Rightarrow> fp_fault + app" where
  "handle_events a [] = Inr a"
| "handle_events a (e # es) =
     (case handle_event a e of Inl f \<Rightarrow> Inl f | Inr a' \<Rightarrow> handle_events a' es)"

text \<open>
  The events of a visible window: GLFW reports a zero width or height only
  while the window is minimised.
\<close>

fun pos_event :: "event \<Rightarrow> bool" where
  "pos_event (WindowSize w h) \<longleftrightarrow> 0 < w \<and> 0 < h"
| "pos_event _ \<longleftrightarrow> True"

text \<open>
  The spec's view of the button state (section 9): a set of logical buttons,
  changed only by button events, a press adding and any other action
  removing the button. \<open>moves\<close> turns a list of cursor positions into the
  events of a pointer moving through them.
\<close>

fun buttons_after :: "nat set \<Rightarrow> event list \<Rightarrow> nat set" where
  "buttons_after S [] = S"
| "buttons_after S (MouseButton b act m cur # es) =
     buttons_after (if act = GLFW_PRESS then insert b S else S - {b}) es"
| "buttons_after S (_ # es) = buttons_after S es"

definition moves :: "(double \<times> double) list \<Rightarrow> event list" where
  "moves ps = map (\<lambda>(x, y). CursorPos x y) ps"

declare key_callback_def [handler_defs] update_buttons_def [handler_defs]
  mousebutton_callback_def [handler_defs] mousepos_callback_def [handler_defs]
  mousewheel_callback_def [handler_defs] windowsize_callback_def [handler_defs]
  GLFW_PRESS_def [handler_defs] GLFW_KEY_ESCAPE_def [handler_defs]
  GLFW_KEY_SPACE_def [handler_defs]

subsection \<open>Abstractions and invariants\<close>

text \<open>
  The spec's view of the gesture (section 4.2 and 9): the set of held
  buttons that the bit mask encodes, and the two session states.
\<close>

definition held_buttons :: "c_int \<Rightarrow> nat set" where
  "held_buttons cb = {i. bit cb i}"

datatype gesture = IDLE | DRAGGING

definition gesture_of :: "input \<Rightarrow> gesture" where
  "gesture_of i = (if clickedButtons i = 0 then IDLE else DRAGGING)"

text \<open>
  What every reachable state keeps: square pixels and a 0/1 draw flag.
  The reachable states start from the static initialisers and are closed
  under the callbacks and under any change of the GL state (rendering writes
  nothing else).
\<close>

definition app_inv :: "app \<Rightarrow> bool" where
  "app_inv a \<longleftrightarrow> uniform_scale (vp a) \<and> drawMandelbrot a \<in> {0, 1}"

inductive reachable :: "app \<Rightarrow> bool" where
  start: "vp a = init_viewport \<Longrightarrow> inp a = init_input \<Longrightarrow> drawMandelbrot a = 1 \<Longrightarrow> reachable a"
| event: "reachable a \<Longrightarrow> handle_event a e = Inr a' \<Longrightarrow> reachable a'"
| render: "reachable a \<Longrightarrow> reachable (a\<lparr>gl := g\<rparr>)"

subsection \<open>Properties of the callbacks\<close>

lemma handle_event_wf:
  assumes "wf_viewport (vp a)" and "pos_event e"
  shows "\<exists>a'. handle_event a e = Inr a' \<and> wf_viewport (vp a')"
  using assms
proof (cases e)
  case (WindowSize w h)
  with assms show ?thesis
    by (auto simp: windowsize_callback_def resize_def fdiv_def Let_def wf_viewport_def
        uniform_scale_def)
next
  case (CursorPos x y)
  with assms show ?thesis
    by (auto simp: mousepos_callback_def pan_def fdiv_def Let_def wf_viewport_def
        uniform_scale_def)
next
  case (Scroll xo yo)
  with assms show ?thesis
    by (simp add: mousewheel_callback_def zoom_scale_eq wf_viewport_def uniform_scale_def)
qed (auto simp: handler_defs Let_def)

lemma update_buttons_bit:
  "b < 32 \<Longrightarrow>
   bit (update_buttons cb b action) i \<longleftrightarrow> (if i = b then action = GLFW_PRESS else bit cb i)"
  by (auto simp: update_buttons_def bit_simps dest: bit_c_int_lt)

lemma first_button_iff: "(cb AND 1 = 0) \<longleftrightarrow> 0 \<notin> held_buttons cb"
  by (simp add: held_buttons_def and_one_eq_zero_iff)


text \<open>
  C28. The bit mask implements the set of held buttons: a press adds the
  button, any other action removes it, the other buttons are untouched.
\<close>

theorem held_buttons_update:
  "b < 32 \<Longrightarrow>
   held_buttons (update_buttons cb b action) =
     (if action = GLFW_PRESS then insert b (held_buttons cb) else held_buttons cb - {b})"
  by (auto simp: held_buttons_def update_buttons_bit)

theorem held_buttons_update_witness:
  "(0::nat) < 32 \<and> held_buttons (update_buttons 0 0 GLFW_PRESS) = insert 0 (held_buttons 0)"
  using held_buttons_update [of 0 0 GLFW_PRESS] by simp

lemma gesture_of_idle_iff: "gesture_of i = IDLE \<longleftrightarrow> held_buttons (clickedButtons i) = {}"
proof -
  have "clickedButtons i = 0 \<longleftrightarrow> (\<forall>n. \<not> bit (clickedButtons i) n)"
    by (auto simp: bit_eq_iff dest: bit_c_int_lt)
  then show ?thesis by (auto simp: gesture_of_def held_buttons_def)
qed


text \<open>
  C29. Releasing the last held button ends the gesture: the session is IDLE.
\<close>

theorem release_last_button_idle:
  assumes "b < 32" and "held_buttons (clickedButtons (inp a)) \<subseteq> {b}" and "action \<noteq> GLFW_PRESS"
  shows "gesture_of (inp (mousebutton_callback a cur b action m)) = IDLE"
  using assms by (auto simp: gesture_of_idle_iff mousebutton_callback_def Let_def held_buttons_update)

theorem release_last_button_idle_witness:
  "(0::nat) < 32 \<and> held_buttons (clickedButtons (inp (init_app (init_gl (\<lambda>_. -1))))) \<subseteq> {0} \<and> (0::int) \<noteq> GLFW_PRESS \<and>
   gesture_of (inp (mousebutton_callback (init_app (init_gl (\<lambda>_. -1))) (1, 1) 0 0 0)) = IDLE"
proof -
  have h: "held_buttons (clickedButtons (inp (init_app (init_gl (\<lambda>_. -1))))) \<subseteq> {0}"
    by (simp add: held_buttons_def init_app_def init_input_def)
  have r: "(0::int) \<noteq> GLFW_PRESS" by (simp add: GLFW_PRESS_def)
  have "(0::nat) < 32" by simp
  with h r release_last_button_idle [OF this h r] show ?thesis by simp
qed


text \<open>
  C30. Pointer moves while the first button is not held change nothing.
\<close>

theorem mousepos_not_dragging:
  "0 \<notin> held_buttons (clickedButtons (inp a)) \<Longrightarrow> mousepos_callback a x y = Inr a"
  by (simp add: mousepos_callback_def first_button_iff)

theorem mousepos_not_dragging_witness:
  "0 \<notin> held_buttons (clickedButtons (inp (init_app (init_gl (\<lambda>_. -1))))) \<and>
   mousepos_callback (init_app (init_gl (\<lambda>_. -1))) 5 7 = Inr (init_app (init_gl (\<lambda>_. -1)))"
proof -
  have h: "0 \<notin> held_buttons (clickedButtons (inp (init_app (init_gl (\<lambda>_. -1)))))"
    by (simp add: held_buttons_def init_app_def init_input_def)
  with mousepos_not_dragging [OF h] show ?thesis by simp
qed


text \<open>
  C4. During a drag, moving the pointer in two steps ends in the same state as
  moving it in one: the pan uses the delta since the last processed position.
\<close>

theorem drag_path_independent:
  assumes "0 \<in> held_buttons (clickedButtons (inp a))" and "mousepos_callback a x1 y1 = Inr a1"
  shows "mousepos_callback a1 x2 y2 = mousepos_callback a x2 y2"
proof -
  from assms obtain v1 where
    p: "pan (vp a) (x1 - prevx (inp a)) (y1 - prevy (inp a)) = Inr v1" and
    a1: "a1 = a\<lparr>vp := v1, inp := (inp a)\<lparr>prevx := x1, prevy := y1\<rparr>\<rparr>"
    by (auto simp: mousepos_callback_def first_button_iff split: sum.splits)
  from p have r: "resx (vp a) \<noteq> 0" "resy (vp a) \<noteq> 0" and
    v1: "v1 = vp a\<lparr>minx := minx (vp a) - (x1 - prevx (inp a)) * dx (vp a) / resx (vp a),
                  miny := miny (vp a) + (y1 - prevy (inp a)) * dy (vp a) / resy (vp a)\<rparr>"
    by (simp_all add: pan_Inr_iff)
  have "pan v1 (x2 - x1) (y2 - y1) = pan (vp a) (x2 - prevx (inp a)) (y2 - prevy (inp a))"
    using r by (simp add: v1 pan_def diff_divide_distrib algebra_simps)
  then show ?thesis
    using assms(1) by (auto simp: a1 mousepos_callback_def first_button_iff split: sum.splits)
qed

theorem drag_path_independent_witness:
  "0 \<in> held_buttons (clickedButtons (inp (mousebutton_callback (init_app (init_gl (\<lambda>_. -1))) (100, 100) 0 GLFW_PRESS 0))) \<and>
   (\<exists>a1. mousepos_callback (mousebutton_callback (init_app (init_gl (\<lambda>_. -1))) (100, 100) 0 GLFW_PRESS 0) 110 105 = Inr a1 \<and>
      mousepos_callback a1 120 110 = mousepos_callback (mousebutton_callback (init_app (init_gl (\<lambda>_. -1))) (100, 100) 0 GLFW_PRESS 0) 120 110)"
proof -
  have h: "0 \<in> held_buttons (clickedButtons (inp (mousebutton_callback (init_app (init_gl (\<lambda>_. -1))) (100, 100) 0 GLFW_PRESS 0)))"
    by (simp add: held_buttons_def handler_defs init_app_def init_input_def bit_simps)
  have "\<exists>a1. mousepos_callback (mousebutton_callback (init_app (init_gl (\<lambda>_. -1))) (100, 100) 0 GLFW_PRESS 0) 110 105 = Inr a1"
    by (simp add: handler_defs Let_def init_app_def init_input_def init_viewport_def bit_simps)
  then obtain a1 where m: "mousepos_callback (mousebutton_callback (init_app (init_gl (\<lambda>_. -1))) (100, 100) 0 GLFW_PRESS 0) 110 105 = Inr a1" ..
  with h drag_path_independent [OF h m] show ?thesis by blast
qed


text \<open>
  C9. Pressing the toggle key twice restores the program state.
\<close>

theorem toggle_twice:
  assumes "action \<noteq> 0" and "action' \<noteq> 0"
  shows "key_callback (key_callback a GLFW_KEY_SPACE sc action m) GLFW_KEY_SPACE sc' action' m' = a"
  using assms by (simp add: key_callback_def GLFW_KEY_SPACE_def GLFW_KEY_ESCAPE_def)

theorem toggle_twice_witness:
  "(1::int) \<noteq> 0 \<and>
   key_callback (key_callback (init_app (init_gl (\<lambda>_. -1))) GLFW_KEY_SPACE 0 1 0) GLFW_KEY_SPACE 0 1 0 = init_app (init_gl (\<lambda>_. -1))"
  using toggle_twice [of 1 1 "init_app (init_gl (\<lambda>_. -1))" 0 0 0 0] by simp


text \<open>The escape key sets the window's close flag, whatever the action.\<close>

theorem escape_closes: "should_close (gl (key_callback a GLFW_KEY_ESCAPE sc action m))"
  by (simp add: key_callback_def GLFW_KEY_SPACE_def GLFW_KEY_ESCAPE_def Let_def)


text \<open>
  C33. A key-repeat event of the space key toggles the draw flag too: holding
  space makes the picture flicker.
\<close>

theorem space_repeat_toggles:
  "drawMandelbrot (key_callback a GLFW_KEY_SPACE sc 2 m) = 1 - drawMandelbrot a"
  by (simp add: key_callback_def GLFW_KEY_SPACE_def GLFW_KEY_ESCAPE_def)

lemma handle_event_app_inv:
  assumes "app_inv a" and "handle_event a e = Inr a'"
  shows "app_inv a'"
proof (cases e)
  case (WindowSize w h)
  with assms show ?thesis
    by (auto simp: app_inv_def windowsize_callback_def resize_Inr_iff uniform_scale_def
        split: sum.splits)
next
  case (Key k sc act m)
  with assms show ?thesis
    by (auto simp: app_inv_def handler_defs Let_def split: if_splits)
next
  case (MouseButton b act m cur)
  with assms show ?thesis
    by (auto simp: app_inv_def mousebutton_callback_def Let_def)
next
  case (CursorPos x y)
  with assms show ?thesis
    by (auto simp: app_inv_def mousepos_callback_def uniform_scale_def
        dest!: pan_extents split: if_splits sum.splits)
next
  case (Scroll xo yo)
  with assms show ?thesis
    by (auto simp: app_inv_def mousewheel_callback_def zoom_scale_eq uniform_scale_def)
qed

lemma init_app_inv: "uniform_scale init_viewport"
  by (simp add: uniform_scale_def init_viewport_def)

lemma reachable_app_inv: "reachable a \<Longrightarrow> app_inv a"
proof (induction rule: reachable.induct)
  case (start a)
  then show ?case by (simp add: app_inv_def init_app_inv)
next
  case (event a e a')
  then show ?case by (blast intro: handle_event_app_inv)
next
  case (render a g)
  then show ?case by (simp add: app_inv_def)
qed


text \<open>
  C1. Every reachable program state has square pixels:
  \<open>dx * resy = dy * resx\<close>.
\<close>

theorem reachable_uniform_scale: "reachable a \<Longrightarrow> uniform_scale (vp a)"
  using reachable_app_inv by (simp add: app_inv_def)

theorem reachable_uniform_scale_witness:
  "reachable (mousewheel_callback (init_app (init_gl (\<lambda>_. -1))) 0 1) \<and> uniform_scale (vp (mousewheel_callback (init_app (init_gl (\<lambda>_. -1))) 0 1))"
proof -
  have "reachable (init_app (init_gl (\<lambda>_. -1)))" by (rule reachable.start) (simp_all add: init_app_def)
  then have r: "reachable (mousewheel_callback (init_app (init_gl (\<lambda>_. -1))) 0 1)"
    by (rule reachable.event [where e = "Scroll 0 1"]) simp
  with reachable_uniform_scale [OF r] show ?thesis by simp
qed


text \<open>In every reachable state the draw flag is 0 or 1.\<close>

theorem reachable_draw_flag: "reachable a \<Longrightarrow> drawMandelbrot a = 0 \<or> drawMandelbrot a = 1"
  using reachable_app_inv by (auto simp: app_inv_def)

theorem reachable_draw_flag_witness:
  "reachable (key_callback (init_app (init_gl (\<lambda>_. -1))) GLFW_KEY_SPACE 0 1 0) \<and>
   (drawMandelbrot (key_callback (init_app (init_gl (\<lambda>_. -1))) GLFW_KEY_SPACE 0 1 0) = 0 \<or>
    drawMandelbrot (key_callback (init_app (init_gl (\<lambda>_. -1))) GLFW_KEY_SPACE 0 1 0) = 1)"
proof -
  have "reachable (init_app (init_gl (\<lambda>_. -1)))" by (rule reachable.start) (simp_all add: init_app_def)
  then have r: "reachable (key_callback (init_app (init_gl (\<lambda>_. -1))) GLFW_KEY_SPACE 0 1 0)"
    by (rule reachable.event [where e = "Key GLFW_KEY_SPACE 0 1 0"]) simp
  with reachable_draw_flag [OF r] show ?thesis by simp
qed


text \<open>
  C13. Minimising the window (GLFW reports a 0-high size) and restoring it
  faults: the second resize divides the zero height by the zero resolution,
  so the viewport becomes NaN for good.
\<close>

theorem minimize_then_restore_faults:
  assumes "resy (vp a) \<noteq> 0"
  shows "handle_events a [WindowSize w 0, WindowSize w' h'] = Inl Div_by_zero"
  using assms by (simp add: windowsize_callback_def resize_def)

theorem minimize_then_restore_faults_witness:
  "resy (vp (init_app (init_gl (\<lambda>_. -1)))) \<noteq> 0 \<and>
   handle_events (init_app (init_gl (\<lambda>_. -1))) [WindowSize 800 0, WindowSize 800 450] = Inl Div_by_zero"
proof -
  have h: "resy (vp (init_app (init_gl (\<lambda>_. -1)))) \<noteq> 0" by (simp add: init_app_def init_viewport_def)
  with minimize_then_restore_faults [OF h] show ?thesis by simp
qed

text \<open>
  C32. A well-formed viewport (positive resolution and extents, square
  pixels) stays well-formed, and no handler faults, through any sequence of
  events of a visible window: the only fault of the callbacks needs a zero
  window height.
\<close>

theorem pos_events_no_fault:
  "wf_viewport (vp a) \<Longrightarrow> \<forall>e \<in> set es. pos_event e \<Longrightarrow>
   \<exists>a'. handle_events a es = Inr a' \<and> wf_viewport (vp a')"
proof (induction es arbitrary: a)
  case Nil
  then show ?case by simp
next
  case (Cons e es)
  then obtain a1 where "handle_event a e = Inr a1" and "wf_viewport (vp a1)"
    using handle_event_wf by (metis list.set_intros(1))
  with Cons show ?case by simp
qed

theorem pos_events_no_fault_witness:
  "wf_viewport (vp (init_app (init_gl (\<lambda>_. -1)))) \<and>
   (\<exists>a'. handle_events (init_app (init_gl (\<lambda>_. -1))) [WindowSize 800 450, CursorPos 3 4, Scroll 0 1] = Inr a' \<and>
      wf_viewport (vp a'))"
proof -
  have w: "wf_viewport (vp (init_app (init_gl (\<lambda>_. -1))))"
    by (simp add: init_app_def wf_viewport_def uniform_scale_def init_viewport_def)
  have p: "\<forall>e \<in> set [WindowSize 800 450, CursorPos 3 4, Scroll 0 1]. pos_event e" by simp
  from w p pos_events_no_fault [OF w p] show ?thesis by blast
qed


lemma handle_event_buttons:
  "handle_event a e = Inr a' \<Longrightarrow>
   clickedButtons (inp a') =
     (case e of MouseButton b act m cur \<Rightarrow> update_buttons (clickedButtons (inp a)) b act
              | _ \<Rightarrow> clickedButtons (inp a))"
  by (cases e) (auto simp: handler_defs Let_def split: sum.splits if_splits)

lemma drag_moves_world_at:
  assumes "0 \<in> held_buttons (clickedButtons (inp a))" and "handle_events a (moves ps) = Inr a'"
  shows "world_at (vp a') (fst (last ((prevx (inp a), prevy (inp a)) # ps)))
                          (snd (last ((prevx (inp a), prevy (inp a)) # ps))) =
         world_at (vp a) (prevx (inp a)) (prevy (inp a))"
  using assms
proof (induction ps arbitrary: a)
  case Nil
  then show ?case by (simp add: moves_def)
next
  case (Cons p ps)
  obtain x y where p: "p = (x, y)" by (cases p)
  from Cons.prems have held: "clickedButtons (inp a) AND button_mask FIRST_BUTTON \<noteq> 0"
    by (simp add: first_button_iff)
  from Cons.prems p obtain a1 where m: "mousepos_callback a x y = Inr a1"
    and rest: "handle_events a1 (moves ps) = Inr a'"
    by (auto simp: moves_def split: sum.splits)
  from m held obtain v' where pan: "pan (vp a) (x - prevx (inp a)) (y - prevy (inp a)) = Inr v'"
    and a1: "a1 = a\<lparr>vp := v', inp := (inp a)\<lparr>prevx := x, prevy := y\<rparr>\<rparr>"
    by (auto simp: mousepos_callback_def split: sum.splits)
  have "world_at v' x y = world_at (vp a) (prevx (inp a)) (prevy (inp a))"
    using pan_world_at [OF pan, of "prevx (inp a)" "prevy (inp a)"] by simp
  moreover from Cons.prems a1 have "0 \<in> held_buttons (clickedButtons (inp a1))" by simp
  ultimately show ?case using Cons.IH [OF _ rest] a1 p by simp
qed


text \<open>
  C26. A drag keeps the grabbed world point under the pointer: after a
  press of the first button and any number of pointer moves, the world
  point under the last pointer position is the one that was under the
  pointer when the button went down.
\<close>

theorem drag_keeps_grabbed_point:
  assumes "handle_events a (MouseButton 0 GLFW_PRESS m (cx, cy) # moves ps) = Inr a'"
  shows "world_at (vp a') (fst (last ((cx, cy) # ps))) (snd (last ((cx, cy) # ps))) =
         world_at (vp a) cx cy"
proof -
  let ?a1 = "mousebutton_callback a (cx, cy) 0 GLFW_PRESS m"
  from assms have rest: "handle_events ?a1 (moves ps) = Inr a'" by simp
  have "0 \<in> held_buttons (clickedButtons (inp ?a1))"
    by (simp add: mousebutton_callback_def held_buttons_def update_buttons_bit)
  from drag_moves_world_at [OF this rest] show ?thesis
    by (simp add: mousebutton_callback_def)
qed

theorem drag_keeps_grabbed_point_witness:
  "\<exists>a'. handle_events (init_app (init_gl (\<lambda>_. -1)))
          (MouseButton 0 GLFW_PRESS 0 (100, 100) # moves [(110, 105), (130, 90)]) = Inr a' \<and>
     world_at (vp a') 130 90 = world_at init_viewport 100 100"
proof -
  have "\<exists>a'. handle_events (init_app (init_gl (\<lambda>_. -1)))
          (MouseButton 0 GLFW_PRESS 0 (100, 100) # moves [(110, 105), (130, 90)]) = Inr a'"
    by (simp add: moves_def handler_defs Let_def init_app_def init_input_def init_viewport_def bit_simps)
  then obtain a' where h: "handle_events (init_app (init_gl (\<lambda>_. -1)))
          (MouseButton 0 GLFW_PRESS 0 (100, 100) # moves [(110, 105), (130, 90)]) = Inr a'" ..
  from h drag_keeps_grabbed_point [OF h] show ?thesis by (auto simp: init_app_def)
qed


text \<open>
  C19. The bit mask refines the spec's set of held buttons over any event
  sequence: after handling it, the held buttons are those the set model
  computes from the button events alone.
\<close>

theorem buttons_refine_set:
  "handle_events a es = Inr a' \<Longrightarrow> (\<forall>b act m cur. MouseButton b act m cur \<in> set es \<longrightarrow> b < 32) \<Longrightarrow>
   held_buttons (clickedButtons (inp a')) = buttons_after (held_buttons (clickedButtons (inp a))) es"
proof (induction es arbitrary: a)
  case Nil
  then show ?case by simp
next
  case (Cons e es)
  then obtain a1 where e: "handle_event a e = Inr a1" and rest: "handle_events a1 es = Inr a'"
    by (auto split: sum.splits)
  from Cons.prems(2) have r: "\<forall>b act m cur. MouseButton b act m cur \<in> set es \<longrightarrow> b < 32" by auto
  note ih = Cons.IH [OF rest r]
  show ?case
  proof (cases e)
    case (MouseButton b act m cur)
    then have "MouseButton b act m cur \<in> set (e # es)" by simp
    with Cons.prems(2) have "b < 32" by blast
    moreover have "clickedButtons (inp a1) = update_buttons (clickedButtons (inp a)) b act"
      using handle_event_buttons [OF e] MouseButton by simp
    ultimately have "held_buttons (clickedButtons (inp a1)) =
        (if act = GLFW_PRESS then insert b (held_buttons (clickedButtons (inp a)))
         else held_buttons (clickedButtons (inp a)) - {b})"
      by (auto simp: held_buttons_def update_buttons_bit)
    with ih MouseButton show ?thesis by simp
  qed (use handle_event_buttons [OF e] ih in simp_all)
qed

theorem buttons_refine_set_witness:
  "\<exists>a'. handle_events (init_app (init_gl (\<lambda>_. -1)))
          [MouseButton 0 GLFW_PRESS 0 (1, 1), MouseButton 2 GLFW_PRESS 0 (1, 1), MouseButton 0 0 0 (1, 1)] = Inr a' \<and>
     held_buttons (clickedButtons (inp a')) = {2}"
proof -
  let ?es = "[MouseButton 0 GLFW_PRESS 0 (1, 1), MouseButton 2 GLFW_PRESS 0 (1, 1), MouseButton 0 0 0 (1, 1)]"
  have "\<exists>a'. handle_events (init_app (init_gl (\<lambda>_. -1))) ?es = Inr a'"
    by (simp add: handler_defs Let_def)
  then obtain a' where h: "handle_events (init_app (init_gl (\<lambda>_. -1))) ?es = Inr a'" ..
  have r: "\<forall>b act m cur. MouseButton b act m cur \<in> set ?es \<longrightarrow> b < 32" by auto
  have "held_buttons (clickedButtons (inp (init_app (init_gl (\<lambda>_. -1))))) = {}"
    by (simp add: held_buttons_def init_app_def init_input_def)
  with h buttons_refine_set [OF h r] show ?thesis by (auto simp: GLFW_PRESS_def)
qed

end
