(* ===== verification/Render.thy ===== *)
theory Render
  imports Input
begin

text \<open>
  The Frame Parameter Exporter: \<open>RTT\<close> (lines 154--196) and \<open>Draw\<close>
  (lines 198--235) of \<open>src/main.cpp\<close>. Both upload the seven uniforms in
  the same order, each guarded by \<open>loc != -1\<close>, and draw the full-screen
  quad; \<open>Draw\<close> also swaps the buffers. The parameter set itself is
  \<open>export_params\<close>, the uploads a fold of \<open>set_uniform\<close>. The lemmas show
  that the parameter set names the seven uniforms of the wire contract once
  each, that the frame drawn by \<open>Draw\<close> sees exactly the exported values,
  that \<open>Draw\<close> is \<open>RTT\<close> followed by a buffer swap, that rendering changes
  no program variable, and that in every reachable state the parameter set
  is well-typed for the wire contract of the spec.
\<close>

definition export_params :: "app \<Rightarrow> (string \<times> uval) list" where
  "export_params a =
     [(''resx'', UF (resx (vp a))), (''resy'', UF (resy (vp a))),
      (''minx'', UF (minx (vp a))), (''miny'', UF (miny (vp a))),
      (''dx'', UF (dx (vp a))), (''dy'', UF (dy (vp a))),
      (''drawMandelbrot'', UI (drawMandelbrot a))]"

definition upload_uniforms :: "gl_state \<Rightarrow> (string \<times> uval) list \<Rightarrow> gl_state" where
  "upload_uniforms g ps = fold (\<lambda>(n, u) g. set_uniform g n u) ps g"

definition RTT :: "app \<Rightarrow> app" where
  "RTT a = a\<lparr>gl := draw_arrays (upload_uniforms (gl a) (export_params a))\<rparr>"

definition Draw :: "app \<Rightarrow> app" where
  "Draw a = a\<lparr>gl := swap_buffers (draw_arrays (upload_uniforms (gl a) (export_params a)))\<rparr>"

text \<open>The uniform names of the wire contract (spec section 6), in upload order.\<close>

definition wire_names :: "string list" where
  "wire_names = [''resx'', ''resy'', ''minx'', ''miny'', ''dx'', ''dy'', ''drawMandelbrot'']"

text \<open>
  The types of the wire contract: six floats and an integer that is 0 or 1.
\<close>

datatype wire_type = Float | Int01

text \<open>
  The semantics column of the wire contract: which program quantity each
  uniform name must carry.
\<close>

definition wire_value :: "app \<Rightarrow> string \<Rightarrow> uval" where
  "wire_value a n =
     (if n = ''resx'' then UF (resx (vp a)) else if n = ''resy'' then UF (resy (vp a))
      else if n = ''minx'' then UF (minx (vp a)) else if n = ''miny'' then UF (miny (vp a))
      else if n = ''dx'' then UF (dx (vp a)) else if n = ''dy'' then UF (dy (vp a))
      else UI (drawMandelbrot a))"

fun has_wire_type :: "uval \<Rightarrow> wire_type \<Rightarrow> bool" where
  "has_wire_type (UF _) Float \<longleftrightarrow> True"
| "has_wire_type (UI i) Int01 \<longleftrightarrow> i = 0 \<or> i = 1"
| "has_wire_type _ _ \<longleftrightarrow> False"

definition wire_contract :: "(string \<times> wire_type) list" where
  "wire_contract = map (\<lambda>n. (n, if n = ''drawMandelbrot'' then Int01 else Float)) wire_names"

text \<open>
  The shader program gives distinct locations to distinct active uniforms.
\<close>

definition distinct_locs :: "gl_state \<Rightarrow> string list \<Rightarrow> bool" where
  "distinct_locs g ns \<longleftrightarrow>
     (\<forall>n \<in> set ns. \<forall>m \<in> set ns.
        uniform_loc g n \<noteq> -1 \<longrightarrow> uniform_loc g n = uniform_loc g m \<longrightarrow> n = m)"

subsection \<open>Uploads\<close>

lemma upload_uniforms_Cons [simp]:
  "upload_uniforms g ((n, u) # ps) = upload_uniforms (set_uniform g n u) ps"
  by (simp add: upload_uniforms_def)

lemma upload_uniforms_Nil [simp]: "upload_uniforms g [] = g"
  by (simp add: upload_uniforms_def)

lemma upload_uniforms_fields [simp]:
  "uniform_loc (upload_uniforms g ps) = uniform_loc g"
  "frames (upload_uniforms g ps) = frames g"
  "swaps (upload_uniforms g ps) = swaps g"
  "should_close (upload_uniforms g ps) = should_close g"
  "gl_viewport (upload_uniforms g ps) = gl_viewport g"
  by (induction ps arbitrary: g) auto

text \<open>A location no uploaded name maps to keeps its value.\<close>

lemma upload_uniforms_other:
  "(\<forall>n \<in> set (map fst ps). uniform_loc g n \<noteq> l) \<Longrightarrow>
   uniforms (upload_uniforms g ps) l = uniforms g l"
  by (induction ps arbitrary: g) (auto simp: uniforms_set_uniform)

lemma upload_uniforms_lookup:
  assumes "distinct (map fst ps)" and "distinct_locs g (map fst ps)"
    and "(n, u) \<in> set ps" and "uniform_loc g n \<noteq> -1"
  shows "uniforms (upload_uniforms g ps) (uniform_loc g n) = Some u"
  using assms
proof (induction ps arbitrary: g)
  case Nil
  then show ?case by simp
next
  case (Cons p ps)
  obtain m w where p: "p = (m, w)" by fastforce
  show ?case
  proof (cases "m = n")
    case True
    with Cons.prems p have "n \<notin> set (map fst ps)" and "u = w"
      by (auto simp: rev_image_eqI)
    moreover have "\<forall>k \<in> set (map fst ps). uniform_loc g k \<noteq> uniform_loc g n"
      using Cons.prems p True \<open>n \<notin> set (map fst ps)\<close>
      by (fastforce simp: distinct_locs_def)
    ultimately show ?thesis
      using p True Cons.prems(4)
      by (simp add: upload_uniforms_other uniforms_set_uniform)
  next
    case False
    with Cons.prems p have "(n, u) \<in> set ps" by auto
    moreover have "distinct_locs (set_uniform g m w) (map fst ps)"
      using Cons.prems(2) by (simp add: distinct_locs_def)
    ultimately show ?thesis
      using Cons.IH [of "set_uniform g m w"] Cons.prems p by simp
  qed
qed

lemma Draw_fields [simp]:
  "vp (Draw a) = vp a" "inp (Draw a) = inp a" "drawMandelbrot (Draw a) = drawMandelbrot a"
  "should_close (gl (Draw a)) = should_close (gl a)"
  "swaps (gl (Draw a)) = Suc (swaps (gl a))"
  "uniform_loc (gl (Draw a)) = uniform_loc (gl a)"
  by (simp_all add: Draw_def swap_buffers_def draw_arrays_def)

lemma Draw_eq_gl: "Draw a = a\<lparr>gl := gl (Draw a)\<rparr>"
  by (simp add: Draw_def)

subsection \<open>Properties\<close>

text \<open>
  The parameter set names the seven uniforms of the wire contract, in upload
  order, each once: no key is missing or doubled.
\<close>

theorem export_params_names: "map fst (export_params a) = wire_names \<and> distinct wire_names"
  by (simp add: export_params_def wire_names_def)

lemma export_params_wire_value: "n \<in> set wire_names \<Longrightarrow> (n, wire_value a n) \<in> set (export_params a)"
  by (auto simp: wire_names_def export_params_def wire_value_def)

text \<open>
  C10. The frame drawn by \<open>Draw\<close> shows the current camera and toggle under
  the names of the wire contract: at the location of each uniform the
  program has, the value in force is the quantity the spec assigns to that
  name (\<open>resx\<close> the width, \<open>minx\<close> the left edge, and so on).
\<close>

theorem Draw_frame_shows_export:
  assumes "distinct_locs (gl a) wire_names" and "n \<in> set wire_names"
    and "uniform_loc (gl a) n \<noteq> -1"
  shows "last (frames (gl (Draw a))) (uniform_loc (gl a) n) = Some (wire_value a n)"
proof -
  have "distinct (map fst (export_params a))"
    and "distinct_locs (gl a) (map fst (export_params a))"
    using assms(1) by (simp_all add: export_params_def wire_names_def)
  then have "uniforms (upload_uniforms (gl a) (export_params a)) (uniform_loc (gl a) n) =
      Some (wire_value a n)"
    using export_params_wire_value [OF assms(2)] assms(3) by (rule upload_uniforms_lookup)
  then show ?thesis by (simp add: Draw_def swap_buffers_def draw_arrays_def)
qed

theorem Draw_frame_shows_export_witness:
  "last (frames (gl (Draw (init_app (init_gl (\<lambda>n. if n = ''dx'' then 4 else -1))))))
     4 = Some (UF (32 / 9))"
proof -
  let ?a = "init_app (init_gl (\<lambda>n. if n = ''dx'' then 4 else -1))"
  have "distinct_locs (gl ?a) wire_names"
    by (simp add: distinct_locs_def wire_names_def init_app_def init_gl_def)
  moreover have "''dx'' \<in> set wire_names" by (simp add: wire_names_def)
  moreover have "uniform_loc (gl ?a) ''dx'' \<noteq> -1"
    by (simp add: init_app_def init_gl_def)
  ultimately have "last (frames (gl (Draw ?a))) (uniform_loc (gl ?a) ''dx'') = Some (wire_value ?a ''dx'')"
    by (rule Draw_frame_shows_export)
  then show ?thesis by (simp add: init_app_def init_gl_def wire_value_def init_viewport_def)
qed

text \<open>\<open>Draw\<close> is \<open>RTT\<close> followed by \<open>glfwSwapBuffers\<close>.\<close>

theorem Draw_is_RTT_then_swap: "Draw a = a\<lparr>gl := swap_buffers (gl (RTT a))\<rparr>"
  by (simp add: Draw_def RTT_def)


text \<open>
  C34. In every reachable state the exported parameter set is well-typed
  for the wire contract: the same names in the same order, the six camera
  values uploaded as floats (\<open>glUniform1f\<close>) and the toggle as an integer
  (\<open>glUniform1i\<close>) that is 0 or 1.
\<close>

theorem export_params_typed:
  "reachable a \<Longrightarrow>
   list_all2 (\<lambda>(n, u) (m, t). n = m \<and> has_wire_type u t) (export_params a) wire_contract"
proof -
  assume "reachable a"
  then have "drawMandelbrot a = 0 \<or> drawMandelbrot a = 1"
    by (auto dest: reachable_app_inv simp: app_inv_def)
  then show ?thesis by (auto simp: export_params_def wire_contract_def wire_names_def)
qed

theorem export_params_typed_witness:
  "reachable (init_app (init_gl (\<lambda>_. -1))) \<and>
   list_all2 (\<lambda>(n, u) (m, t). n = m \<and> has_wire_type u t)
     (export_params (init_app (init_gl (\<lambda>_. -1)))) wire_contract"
proof -
  have r: "reachable (init_app (init_gl (\<lambda>_. -1)))"
    by (rule reachable.start) (simp_all add: init_app_def)
  from r export_params_typed [OF r] show ?thesis by blast
qed

end
