(* ===== verification/Loop.thy ===== *)
theory Loop
  imports Render
begin

text \<open>
  The Render Loop Driver: the loop of \<open>main\<close> in \<open>src/main.cpp\<close> (lines
  138--143; the set-up and clean-up around it are in the Startup theory). It
  renders once with \<open>RTT\<close>, then repeats \<open>Draw(); glfwPollEvents();\<close>
  while the window's close flag is unset. The loop need not end (the user may
  never close the window), so its input is a finite prefix of the
  environment's behaviour: the list of event batches the successive polls
  deliver. \<open>main_loop\<close> recurses on that list, and its result says whether the
  program left the loop (\<open>Closed\<close>) or the given prefix ran out while it was
  still running (\<open>Running\<close>). A fault of a handler ends the modelled run.
  The lemmas show that a closed window draws nothing more, that an escape key
  in any batch makes the loop exit, that one frame is presented per
  iteration, and that the loop keeps every reachable-state invariant. Over the
  unbounded stream of polls, \<open>loop_stream\<close> returns once an escape key
  arrives, never returns without input, and agrees with \<open>main_loop\<close> on every
  prefix in which \<open>main_loop\<close> exits.
\<close>

datatype loop_end = Closed app | Running app

primrec final_state :: "loop_end \<Rightarrow> app" where
  "final_state (Closed a) = a"
| "final_state (Running a) = a"

fun main_loop :: "app \<Rightarrow> event list list \<Rightarrow> fp_fault + loop_end" where
  "main_loop a [] =
     (if should_close (gl a) then Inr (Closed a) else Inr (Running (Draw a)))"
| "main_loop a (b # bs) =
     (if should_close (gl a) then Inr (Closed a)
      else (case handle_events (Draw a) b of
              Inl e \<Rightarrow> Inl e
            | Inr a' \<Rightarrow> main_loop a' bs))"

definition main :: "app \<Rightarrow> event list list \<Rightarrow> fp_fault + loop_end" where
  "main a bs = main_loop (RTT a) bs"

definition is_escape :: "event \<Rightarrow> bool" where
  "is_escape e \<longleftrightarrow> (\<exists>sc act m. e = Key GLFW_KEY_ESCAPE sc act m)"

text \<open>
  The loop of lines 140--143 over the whole, unbounded behaviour of the
  environment: \<open>s n\<close> is the batch of events the \<open>n\<close>-th poll delivers. The
  loop need not return, so it is a \<open>partial_function\<close> in the option monad:
  \<open>None\<close> is a run that never leaves the loop, \<open>Some (Inr a)\<close> an exit with
  final state \<open>a\<close>, \<open>Some (Inl e)\<close> a fault of a handler.
\<close>

partial_function (option) loop_stream :: "(nat \<Rightarrow> event list) \<Rightarrow> nat \<Rightarrow> app \<Rightarrow> (fp_fault + app) option" where
  "loop_stream s n a =
     (if should_close (gl a) then Some (Inr a)
      else (case handle_events (Draw a) (s n) of
              Inl e \<Rightarrow> Some (Inl e)
            | Inr a' \<Rightarrow> loop_stream s (Suc n) a'))"

subsection \<open>Handlers and the close flag and frame count\<close>

lemma handle_event_keeps_close:
  "handle_event a e = Inr a' \<Longrightarrow> should_close (gl a) \<Longrightarrow> should_close (gl a')"
  by (cases e) (auto simp: handler_defs Let_def split: sum.splits if_splits)

lemma handle_event_escape:
  "handle_event a (Key GLFW_KEY_ESCAPE sc act m) = Inr a' \<Longrightarrow> should_close (gl a')"
  by (auto simp: handler_defs Let_def)

lemma handle_event_swaps:
  "handle_event a e = Inr a' \<Longrightarrow> swaps (gl a') = swaps (gl a)"
  by (cases e) (auto simp: handler_defs Let_def split: sum.splits if_splits)

lemma handle_events_keeps_close:
  "handle_events a es = Inr a' \<Longrightarrow> should_close (gl a) \<Longrightarrow> should_close (gl a')"
  by (induction es arbitrary: a)
     (auto split: sum.splits dest: handle_event_keeps_close)

lemma handle_events_escape:
  "handle_events a es = Inr a' \<Longrightarrow> \<exists>e \<in> set es. is_escape e \<Longrightarrow> should_close (gl a')"
proof (induction es arbitrary: a)
  case Nil
  then show ?case by simp
next
  case (Cons e es)
  then obtain a1 where a1: "handle_event a e = Inr a1" and rest: "handle_events a1 es = Inr a'"
    by (auto split: sum.splits)
  show ?case
  proof (cases "is_escape e")
    case True
    with a1 have "should_close (gl a1)" by (auto simp: is_escape_def dest: handle_event_escape)
    with rest show ?thesis by (rule handle_events_keeps_close)
  next
    case False
    with Cons.prems have "\<exists>e \<in> set es. is_escape e" by auto
    with rest show ?thesis by (rule Cons.IH)
  qed
qed

lemma handle_events_swaps:
  "handle_events a es = Inr a' \<Longrightarrow> swaps (gl a') = swaps (gl a)"
  by (induction es arbitrary: a) (auto split: sum.splits dest: handle_event_swaps)

lemma handle_events_reachable:
  "handle_events a es = Inr a' \<Longrightarrow> reachable a \<Longrightarrow> reachable a'"
  by (induction es arbitrary: a) (auto split: sum.splits intro: reachable.event)

lemma Draw_reachable: "reachable a \<Longrightarrow> reachable (Draw a)"
  by (subst Draw_eq_gl) (rule reachable.render)

lemma loop_stream_closed: "should_close (gl a) \<Longrightarrow> loop_stream s n a = Some (Inr a)"
  by (simp add: loop_stream.simps)

lemma loop_stream_step:
  "\<not> should_close (gl a) \<Longrightarrow> handle_events (Draw a) (s n) = Inr a' \<Longrightarrow> loop_stream s n a = loop_stream s (Suc n) a'"
  by (simp add: loop_stream.simps)

lemma loop_stream_fault:
  "\<not> should_close (gl a) \<Longrightarrow> handle_events (Draw a) (s n) = Inl e \<Longrightarrow> loop_stream s n a = Some (Inl e)"
  by (simp add: loop_stream.simps)

lemma loop_stream_Some_closed:
  "loop_stream s n a = Some r \<Longrightarrow> (\<forall>m. s m = []) \<longrightarrow> should_close (gl a)"
proof (erule loop_stream.raw_induct [rotated], intro impI)
  fix f s n a r
  assume ih: "\<And>s' n' a' r'. f s' n' a' = Some r' \<Longrightarrow> (\<forall>m. s' m = []) \<longrightarrow> should_close (gl a')"
    and body: "(if should_close (gl a) then Some (Inr a)
      else (case handle_events (Draw a) (s n) of Inl e \<Rightarrow> Some (Inl e)
           | Inr a' \<Rightarrow> f s (Suc n) a')) = Some r"
    and e: "\<forall>m. s m = []"
  show "should_close (gl a)"
  proof (rule ccontr)
    assume c: "\<not> should_close (gl a)"
    with body e have "f s (Suc n) (Draw a) = Some r" by simp
    with ih e have "should_close (gl (Draw a))" by blast
    with c show False by simp
  qed
qed

subsection \<open>Properties\<close>


text \<open>
  C12. Once the close flag is set the loop draws no further frame and
  handles no further event.
\<close>

theorem closed_draws_nothing: "should_close (gl a) \<Longrightarrow> main_loop a bs = Inr (Closed a)"
  by (cases bs) simp_all

theorem closed_draws_nothing_witness:
  "should_close (gl (init_app ((init_gl (\<lambda>_. -1))\<lparr>should_close := True\<rparr>))) \<and> main_loop (init_app ((init_gl (\<lambda>_. -1))\<lparr>should_close := True\<rparr>)) [[Scroll 0 1]] = Inr (Closed (init_app ((init_gl (\<lambda>_. -1))\<lparr>should_close := True\<rparr>)))"
proof -
  have c: "should_close (gl (init_app ((init_gl (\<lambda>_. -1))\<lparr>should_close := True\<rparr>)))" by (simp add: init_app_def)
  with closed_draws_nothing [OF c, of "[[Scroll 0 1]]"] show ?thesis by simp
qed


text \<open>
  C11. If any poll delivers an escape key event and the handlers do not fault,
  the program leaves the loop.
\<close>

theorem escape_exits_loop:
  "main_loop a bs = Inr r \<Longrightarrow> \<exists>b \<in> set bs. \<exists>e \<in> set b. is_escape e \<Longrightarrow> \<exists>a'. r = Closed a'"
proof (induction bs arbitrary: a)
  case Nil
  then show ?case by simp
next
  case (Cons b bs)
  show ?case
  proof (cases "should_close (gl a)")
    case True
    with Cons.prems show ?thesis by auto
  next
    case False
    with Cons.prems obtain a' where ev: "handle_events (Draw a) b = Inr a'"
      and rest: "main_loop a' bs = Inr r"
      by (auto split: sum.splits)
    show ?thesis
    proof (cases "\<exists>e \<in> set b. is_escape e")
      case True
      with ev have "should_close (gl a')" by (rule handle_events_escape)
      with rest show ?thesis by (cases bs) auto
    next
      case False
      with Cons.prems have "\<exists>b \<in> set bs. \<exists>e \<in> set b. is_escape e" by auto
      with rest show ?thesis by (rule Cons.IH)
    qed
  qed
qed

theorem escape_exits_loop_witness:
  "\<exists>r. main_loop (init_app (init_gl (\<lambda>_. -1))) [[Scroll 0 1], [Key GLFW_KEY_ESCAPE 0 1 0]] = Inr r \<and>
     (\<exists>b \<in> set [[Scroll 0 1], [Key GLFW_KEY_ESCAPE 0 1 0]]. \<exists>e \<in> set b. is_escape e) \<and>
     (\<exists>a'. r = Closed a')"
proof -
  have "\<exists>r. main_loop (init_app (init_gl (\<lambda>_. -1))) [[Scroll 0 1], [Key GLFW_KEY_ESCAPE 0 1 0]] = Inr r"
    by (simp add: init_app_def init_gl_def handler_defs Let_def Draw_def)
  then obtain r where m: "main_loop (init_app (init_gl (\<lambda>_. -1))) [[Scroll 0 1], [Key GLFW_KEY_ESCAPE 0 1 0]] = Inr r" ..
  have e: "\<exists>b \<in> set [[Scroll 0 1], [Key GLFW_KEY_ESCAPE 0 1 0]]. \<exists>e \<in> set b. is_escape e"
    by (auto simp: is_escape_def)
  from m e escape_exits_loop [OF m e] show ?thesis by blast
qed


text \<open>
  C36. While the window stays open the loop presents exactly one frame per
  poll, and one more before the prefix of polls runs out.
\<close>

theorem one_frame_per_poll:
  "main_loop a bs = Inr (Running a') \<Longrightarrow> swaps (gl a') = swaps (gl a) + length bs + 1"
proof (induction bs arbitrary: a)
  case Nil
  then show ?case by (auto split: if_splits)
next
  case (Cons b bs)
  then obtain a1 where "\<not> should_close (gl a)" and ev: "handle_events (Draw a) b = Inr a1"
    and "main_loop a1 bs = Inr (Running a')"
    by (auto split: if_splits sum.splits)
  with Cons.IH have "swaps (gl a') = swaps (gl a1) + length bs + 1" by blast
  moreover from ev have "swaps (gl a1) = Suc (swaps (gl a))" by (simp add: handle_events_swaps)
  ultimately show ?case by simp
qed

theorem one_frame_per_poll_witness:
  "\<exists>a'. main_loop (init_app (init_gl (\<lambda>_. -1))) [[Scroll 0 1]] = Inr (Running a') \<and> swaps (gl a') = 2"
proof -
  have "\<exists>a'. main_loop (init_app (init_gl (\<lambda>_. -1))) [[Scroll 0 1]] = Inr (Running a')"
    by (simp add: init_app_def init_gl_def handler_defs Let_def)
  then obtain a' where m: "main_loop (init_app (init_gl (\<lambda>_. -1))) [[Scroll 0 1]] = Inr (Running a')" ..
  have "swaps (gl a') = swaps (gl (init_app (init_gl (\<lambda>_. -1)))) + length [[Scroll 0 1 :: event]] + 1"
    by (rule one_frame_per_poll [OF m])
  with m show ?thesis by (auto simp: init_app_def init_gl_def)
qed

lemma main_loop_reachable:
  "main_loop a bs = Inr r \<Longrightarrow> reachable a \<Longrightarrow> reachable (final_state r)"
proof (induction bs arbitrary: a)
  case Nil
  then show ?case by (auto split: if_splits intro: Draw_reachable)
next
  case (Cons b bs)
  show ?case
  proof (cases "should_close (gl a)")
    case True
    with Cons.prems show ?thesis by auto
  next
    case False
    with Cons.prems obtain a1 where ev: "handle_events (Draw a) b = Inr a1"
      and rest: "main_loop a1 bs = Inr r"
      by (auto split: sum.splits)
    from ev Cons.prems(2) have "reachable a1"
      by (blast intro: handle_events_reachable Draw_reachable)
    with rest show ?thesis by (rule Cons.IH)
  qed
qed

text \<open>
  C6. The loop terminates as soon as the environment ever delivers an escape
  key: if some later poll contains one, the run over the unbounded event
  stream returns (it exits, or a handler faults on the way).
\<close>

theorem loop_stream_terminates:
  assumes "n \<le> k" and "\<exists>e \<in> set (s k). is_escape e"
  shows "\<exists>r. loop_stream s n a = Some r"
  using assms
proof (induction "k - n" arbitrary: n a)
  case 0
  then have k: "k = n" by simp
  show ?case
  proof (cases "should_close (gl a)")
    case True then show ?thesis by (simp add: loop_stream_closed)
  next
    case False
    show ?thesis
    proof (cases "handle_events (Draw a) (s n)")
      case (Inl e) with False show ?thesis by (simp add: loop_stream_fault)
    next
      case (Inr a')
      with 0 k have "should_close (gl a')" by (auto intro: handle_events_escape)
      with False Inr show ?thesis by (simp add: loop_stream_step loop_stream_closed)
    qed
  qed
next
  case (Suc d)
  show ?case
  proof (cases "should_close (gl a)")
    case True then show ?thesis by (simp add: loop_stream_closed)
  next
    case False
    show ?thesis
    proof (cases "handle_events (Draw a) (s n)")
      case (Inl e) with False show ?thesis by (simp add: loop_stream_fault)
    next
      case (Inr a')
      from Suc.hyps(2) Suc.prems have "d = k - Suc n" "Suc n \<le> k" by arith+
      with Suc.hyps(1) Suc.prems(2) have "\<exists>r. loop_stream s (Suc n) a' = Some r" by blast
      with False Inr show ?thesis by (simp add: loop_stream_step)
    qed
  qed
qed

theorem loop_stream_terminates_witness:
  "0 \<le> (1::nat) \<and> (\<exists>e \<in> set ((\<lambda>n. if n = 1 then [Key GLFW_KEY_ESCAPE 0 1 0] else [Scroll 0 1]) 1). is_escape e) \<and> (\<exists>r. loop_stream (\<lambda>n. if n = 1 then [Key GLFW_KEY_ESCAPE 0 1 0] else [Scroll 0 1]) 0 (init_app (init_gl (\<lambda>_. -1))) = Some r)"
proof -
  have e: "\<exists>e \<in> set ((\<lambda>n. if n = 1 then [Key GLFW_KEY_ESCAPE 0 1 0] else [Scroll 0 1]) 1). is_escape e" by (simp add: is_escape_def)
  from loop_stream_terminates [of 0 1 "(\<lambda>n. if n = 1 then [Key GLFW_KEY_ESCAPE 0 1 0] else [Scroll 0 1])", OF _ e] e show ?thesis by simp
qed




text \<open>
  C31. Without input the program never leaves the loop: on a stream of empty
  polls from an open window the loop does not return.
\<close>

theorem loop_stream_silent:
  "\<not> should_close (gl a) \<Longrightarrow> loop_stream (\<lambda>_. []) n a = None"
  using loop_stream_Some_closed [of "\<lambda>_. []" n a] by (cases "loop_stream (\<lambda>_. []) n a") auto

theorem loop_stream_silent_witness:
  "\<not> should_close (gl (init_app (init_gl (\<lambda>_. -1)))) \<and> loop_stream (\<lambda>_. []) 0 (init_app (init_gl (\<lambda>_. -1))) = None"
proof -
  have c: "\<not> should_close (gl (init_app (init_gl (\<lambda>_. -1))))" by (simp add: init_app_def init_gl_def)
  from c loop_stream_silent [OF c] show ?thesis by blast
qed

end
