(* ===== verification/Startup.thy ===== *)
theory Startup
  imports Shader Loop
begin

text \<open>
  The whole of \<open>main\<close> in \<open>src/main.cpp\<close> (lines 123--152) with \<open>initGL\<close>
  (lines 236--275): start-up, the loop of the Loop theory, clean-up. The
  platform (GLFW, the window system, GLEW and the driver's uniform
  locations) is a record of collaborator answers. \<open>exit(n)\<close> in \<open>initGL\<close>
  ends the process with status \<open>n\<close>; a fault of \<open>LoadShaders\<close> is a crash;
  a fault of a handler ends the modelled run; a run whose event prefix ends
  before the window closes is still running. The lemmas give the exit
  status of every failure of \<open>initGL\<close> and show that on a working platform
  with both shader files the program reaches the loop of the Loop theory
  and exits with status 0 when that loop exits.
\<close>

record platform =
  glfw_init_ok :: bool
  window_ok :: "int \<Rightarrow> int \<Rightarrow> bool"
  glew_ok :: bool
  uniform_locs :: "nat \<Rightarrow> string \<Rightarrow> int"

text \<open>
  \<open>initGL\<close>: the three checked steps and their exits. The window is created
  at the initial resolution (the doubles \<open>resx, resy\<close> converted to \<open>int\<close>).
  The GLEW message goes to \<open>stderr\<close>, which is not modelled; the window
  hints, callback registrations (the dispatch \<open>handle_event\<close>), swap
  interval and clear colour change no modelled state.
\<close>

definition initGL :: "platform \<Rightarrow> world \<Rightarrow> (int \<times> world) + world" where
  "initGL p w =
     (let w1 = printf w (''Initializing OpenGL/GLFW'' @ [NL])
      in if \<not> glfw_init_ok p then Inl (-1, printf w1 (''Could not initialize'' @ [NL]))
         else if \<not> window_ok p (c_trunc (resx init_viewport)) (c_trunc (resy init_viewport))
         then Inl (-2, printf w1 (''Could not open glfw window'' @ [NL]))
         else (let w2 = printf w1 (''Initializing GLEW'' @ [NL])
               in if \<not> glew_ok p then Inl (-3, w2) else Inr w2))"

text \<open>
  Clean-up after the loop: \<open>glDeleteProgram\<close> deletes the program and frees
  the shaders flagged for deletion that it held; \<open>glfwTerminate\<close> destroys
  the context with every object still in it. The vertex buffer and array
  objects are not modelled.
\<close>

definition glDeleteProgram :: "world \<Rightarrow> nat \<Rightarrow> world" where
  "glDeleteProgram w pid =
     (case program_objs w pid of
        None \<Rightarrow> w
      | Some po \<Rightarrow>
          w\<lparr>program_objs := (program_objs w)(pid := None),
            shader_objs := (\<lambda>sid. if sid \<in> set (attached po) \<and>
                                      (case shader_objs w sid of None \<Rightarrow> False | Some s \<Rightarrow> sh_delete_flag s)
                                   then None else shader_objs w sid)\<rparr>)"

definition glfwTerminate :: "world \<Rightarrow> world" where
  "glfwTerminate w = w\<lparr>shader_objs := Map.empty, program_objs := Map.empty\<rparr>"

datatype outcome =
    Exit int world
  | Running_after app world
  | Crash io_fault
  | Handler_fault fp_fault

definition run_main :: "platform \<Rightarrow> world \<Rightarrow> event list list \<Rightarrow> outcome" where
  "run_main p w bs =
     (case initGL p w of
        Inl (status, w1) \<Rightarrow> Exit status w1
      | Inr w1 \<Rightarrow>
          (case LoadShaders w1 ''vertex_shader.vs'' ''fragment_shader.fs'' of
             Inl e \<Rightarrow> Crash e
           | Inr (programID, w2) \<Rightarrow>
               (case main (init_app (init_gl (uniform_locs p programID))) bs of
                  Inl f \<Rightarrow> Handler_fault f
                | Inr (Running a) \<Rightarrow> Running_after a w2
                | Inr (Closed a) \<Rightarrow> Exit 0 (glfwTerminate (glDeleteProgram w2 programID)))))"

text \<open>A platform on which every step of \<open>initGL\<close> succeeds.\<close>

definition working_platform :: platform where
  "working_platform =
     \<lparr>glfw_init_ok = True, window_ok = (\<lambda>_ _. True), glew_ok = True,
      uniform_locs = (\<lambda>_ _. -1)\<rparr>"

subsection \<open>Properties\<close>

lemma initGL_ok:
  assumes "glfw_init_ok p" and "window_ok p 1600 900" and "glew_ok p"
  shows "\<exists>w1. initGL p w = Inr w1 \<and> files w1 = files w \<and> next_name w1 = next_name w \<and>
    compiler w1 = compiler w \<and> heap_live w1 = heap_live w"
  using assms by (simp add: initGL_def printf_def Let_def init_viewport_def)

lemma initGL_exit_status:
  "(\<exists>w'. initGL p w = Inl (c, w')) \<longleftrightarrow>
     (\<not> glfw_init_ok p \<and> c = -1) \<or>
     (glfw_init_ok p \<and> \<not> window_ok p 1600 900 \<and> c = -2) \<or>
     (glfw_init_ok p \<and> window_ok p 1600 900 \<and> \<not> glew_ok p \<and> c = -3)"
  by (auto simp: initGL_def Let_def init_viewport_def)

lemma run_main_missing_vertex_shader:
  assumes "glfw_init_ok p" and "window_ok p 1600 900" and "glew_ok p"
    and "files w ''vertex_shader.vs'' = None"
  shows "run_main p w bs = Crash (Null_file ''vertex_shader.vs'')"
proof -
  obtain w1 where "initGL p w = Inr w1" and "files w1 = files w"
    using initGL_ok [OF assms(1-3)] by blast
  with assms(4) show ?thesis by (simp add: run_main_def LoadShaders_missing_vertex_file)
qed

text \<open>
  C15. \<open>main\<close> ends with a non-zero exit status exactly when \<open>initGL\<close> fails,
  and the status names the failing step: \<open>-1\<close> for GLFW, \<open>-2\<close> for the
  window, \<open>-3\<close> for GLEW. A run that gets past \<open>initGL\<close> only exits with 0.
\<close>

theorem run_main_exit_status:
  "(\<exists>w'. run_main p w bs = Exit c w') \<and> c \<noteq> 0 \<longleftrightarrow>
     (\<not> glfw_init_ok p \<and> c = -1) \<or>
     (glfw_init_ok p \<and> \<not> window_ok p 1600 900 \<and> c = -2) \<or>
     (glfw_init_ok p \<and> window_ok p 1600 900 \<and> \<not> glew_ok p \<and> c = -3)"
proof (cases "initGL p w")
  case (Inl r)
  obtain c' w1 where r: "r = (c', w1)" by (cases r)
  with Inl have "c' \<noteq> 0" using initGL_exit_status [of p w c'] by auto
  with Inl r show ?thesis using initGL_exit_status [of p w c] by (auto simp: run_main_def)
next
  case (Inr w1)
  then have "\<not> (\<exists>w'. run_main p w bs = Exit c w') \<or> c = 0"
    by (auto simp: run_main_def split: sum.splits loop_end.splits)
  with Inr show ?thesis using initGL_exit_status [of p w c] by auto
qed

theorem run_main_exit_status_witness:
  "\<exists>w'. run_main (working_platform\<lparr>glew_ok := False\<rparr>) sample_world [] = Exit (-3) w'"
  using run_main_exit_status [of "working_platform\<lparr>glew_ok := False\<rparr>" sample_world "[]" "-3"]
  by (simp add: working_platform_def)

text \<open>
  C16. \<open>readFile\<close> does not check \<open>fopen\<close>: on a working platform, a missing
  shader file crashes the program with a \<open>NULL\<close> file before any frame is
  drawn, whichever of the two files is missing.
\<close>

theorem run_main_missing_shader:
  assumes "glfw_init_ok p" and "window_ok p 1600 900" and "glew_ok p"
    and ok: "\<forall>t src. \<not> fst (compiler w t src) \<longrightarrow> snd (compiler w t src) \<noteq> []"
    and missing: "files w ''vertex_shader.vs'' = None \<or> files w ''fragment_shader.fs'' = None"
  shows "\<exists>f. run_main p w bs = Crash (Null_file f) \<and> files w f = None"
proof (cases "files w ''vertex_shader.vs''")
  case None
  with run_main_missing_vertex_shader [OF assms(1-3) None] show ?thesis by blast
next
  case (Some cv)
  with missing have fs: "files w ''fragment_shader.fs'' = None" by simp
  obtain w1 where i: "initGL p w = Inr w1" and f1: "files w1 = files w" "compiler w1 = compiler w"
    using initGL_ok [OF assms(1-3)] by blast
  have "LoadShaders w1 ''vertex_shader.vs'' ''fragment_shader.fs'' = Inl (Null_file ''fragment_shader.fs'')"
    using LoadShaders_missing_fragment_file [of w1 "''vertex_shader.vs''" cv "''fragment_shader.fs''"]
      Some fs ok f1 by simp
  with i fs show ?thesis by (simp add: run_main_def)
qed

theorem run_main_missing_shader_witness:
  "\<exists>f. run_main working_platform (sample_world\<lparr>files := [''vertex_shader.vs'' \<mapsto> ''void main(){}'']\<rparr>) [] =
     Crash (Null_file f) \<and> f \<noteq> ''vertex_shader.vs''"
proof -
  let ?w = "sample_world\<lparr>files := [''vertex_shader.vs'' \<mapsto> ''void main(){}'']\<rparr>"
  have h: "glfw_init_ok working_platform" "window_ok working_platform 1600 900" "glew_ok working_platform"
    "\<forall>t src. \<not> fst (compiler ?w t src) \<longrightarrow> snd (compiler ?w t src) \<noteq> []"
    "files ?w ''vertex_shader.vs'' = None \<or> files ?w ''fragment_shader.fs'' = None"
    by (simp_all add: working_platform_def sample_world_def)
  from run_main_missing_shader [OF h, of "[]"] show ?thesis by auto
qed

text \<open>
  C40. On a platform where \<open>initGL\<close> succeeds, with both shader files present
  and a driver that explains every failed compile, \<open>main\<close> reaches the
  render loop with the uniform locations of the new program, and its
  outcome is the loop's: a handler fault, a run still going when the polls
  run out, or exit status 0 after the clean-up once the loop exits.
\<close>

theorem run_main_refines_main:
  assumes "glfw_init_ok p" and "window_ok p 1600 900" and "glew_ok p"
    and "files w ''vertex_shader.vs'' = Some cv" and "files w ''fragment_shader.fs'' = Some cf"
    and "\<forall>t src. \<not> fst (compiler w t src) \<longrightarrow> snd (compiler w t src) \<noteq> []"
  shows "\<exists>w2. run_main p w bs =
    (case main (init_app (init_gl (uniform_locs p (Suc (Suc (next_name w)))))) bs of
       Inl f \<Rightarrow> Handler_fault f
     | Inr (Running a) \<Rightarrow> Running_after a w2
     | Inr (Closed a) \<Rightarrow> Exit 0 (glfwTerminate (glDeleteProgram w2 (Suc (Suc (next_name w))))))"
proof -
  obtain w1 where i: "initGL p w = Inr w1" and f1: "files w1 = files w" "next_name w1 = next_name w"
    "compiler w1 = compiler w"
    using initGL_ok [OF assms(1-3)] by blast
  obtain w2 where "LoadShaders w1 ''vertex_shader.vs'' ''fragment_shader.fs'' = Inr (Suc (Suc (next_name w)), w2)"
    using LoadShaders_ok [of w1 "''vertex_shader.vs''" cv "''fragment_shader.fs''" cf] assms(4-6) f1 by auto
  with i show ?thesis by (auto simp: run_main_def split: sum.splits loop_end.splits)
qed

theorem run_main_refines_main_witness:
  "\<exists>w'. run_main working_platform sample_world [[Scroll 0 1], [Key GLFW_KEY_ESCAPE 0 GLFW_PRESS 0]] = Exit 0 w'"
proof -
  have p: "glfw_init_ok working_platform" "window_ok working_platform 1600 900" "glew_ok working_platform"
    by (simp_all add: working_platform_def)
  have f: "files sample_world ''vertex_shader.vs'' = Some ''void main(){}''"
    "files sample_world ''fragment_shader.fs'' = Some ''out vec4 c;''"
    "\<forall>t src. \<not> fst (compiler sample_world t src) \<longrightarrow> snd (compiler sample_world t src) \<noteq> []"
    by (simp_all add: sample_world_def)
  obtain w2 where e: "run_main working_platform sample_world [[Scroll 0 1], [Key GLFW_KEY_ESCAPE 0 GLFW_PRESS 0]] =
    (case main (init_app (init_gl (uniform_locs working_platform (Suc (Suc (next_name sample_world)))))) [[Scroll 0 1], [Key GLFW_KEY_ESCAPE 0 GLFW_PRESS 0]] of
       Inl f \<Rightarrow> Handler_fault f
     | Inr (Running a) \<Rightarrow> Running_after a w2
     | Inr (Closed a) \<Rightarrow> Exit 0 (glfwTerminate (glDeleteProgram w2 (Suc (Suc (next_name sample_world))))))"
    using run_main_refines_main [OF p f, of "[[Scroll 0 1], [Key GLFW_KEY_ESCAPE 0 GLFW_PRESS 0]]"] by blast
  have "\<exists>a. main (init_app (init_gl (uniform_locs working_platform (Suc (Suc (next_name sample_world)))))) [[Scroll 0 1], [Key GLFW_KEY_ESCAPE 0 GLFW_PRESS 0]] =
      Inr (Closed a)"
    by (simp add: working_platform_def sample_world_def main_def RTT_def Draw_def handler_defs Let_def
        init_app_def init_gl_def)
  with e show ?thesis by auto
qed

end
