(* ===== verification/Spec2Isabelle.thy ===== *)
theory Spec2Isabelle
  imports Startup
begin

text \<open>
  \<^bold>\<open>A verification model of the Mandelbrot viewer (src/main.cpp).\<close>

  The program renders the Mandelbrot set in a fragment shader; the C++ side
  keeps a camera (the world rectangle \<open>minx, miny, dx, dy\<close> and the
  resolution \<open>resx, resy\<close>), updates it from GLFW input callbacks, and
  uploads it as uniforms every frame. Its parts and their theories:

  \<^item> \<^bold>\<open>Prelude\<close>: C \<open>double\<close> as \<open>real\<close>, C \<open>int\<close> bit masks as \<open>32 word\<close>,
    the fault \<open>Div_by_zero\<close> for an IEEE division by zero (\<open>fdiv\<close>), the C
    double-to-int truncation \<open>c_trunc\<close>, facts on \<open>0.95 powr s\<close> and on bits.
  \<^item> \<^bold>\<open>Viewport\<close> (Viewport State): the globals of lines 12--18 as the record
    \<open>viewport\<close> and \<open>init_viewport\<close>; \<open>resize\<close>, \<open>pan\<close>, \<open>zoom\<close> are the
    camera arithmetic of \<open>windowsize_callback\<close>, \<open>mousepos_callback\<close> and
    \<open>mousewheel_callback\<close>. \<open>scale_about_center\<close> is the abstract contract of
    the zoom, and \<open>zoom_scale_eq\<close> shows the C formula refines it.
    \<open>world_at\<close> is the spec's screen-to-world map (\<open>(minx, miny)\<close> at the
    lower-left pixel, cursor rows counted from the top). Lemmas: square
    pixels after a resize, faults exactly at a zero resolution, a pan keeps
    the grabbed world point under the pointer, zoom centre, identity,
    composition, strict shrinking and growing, preservation of
    well-formedness, and that the centre is the only world point a zoom
    keeps in place.
  \<^item> \<^bold>\<open>GL\<close>: the OpenGL/GLFW state the program writes (uniforms by location,
    the uniforms in force at each draw, buffer swaps, viewport rectangle,
    close flag). This is a collaborator; it is modelled only as far as the
    program's calls change it.
  \<^item> \<^bold>\<open>Input\<close> (Input Translator): \<open>prevx, prevy, clickedButtons\<close> as the
    record \<open>input\<close>, the whole program state as \<open>app\<close>, the five callbacks
    (lines 277--344), the dispatch of \<open>glfwPollEvents\<close> to them
    (\<open>handle_event\<close>, \<open>handle_events\<close>, following the registrations of lines
    265--269), the button mask's abstraction \<open>held_buttons\<close> and the gesture
    states \<open>IDLE\<close>/\<open>DRAGGING\<close> of the spec, and the inductive set
    \<open>reachable\<close> of program states with its invariant (square pixels, 0/1 draw
    flag) proved by rule induction. From a well-formed viewport, the events
    of a visible window (\<open>pos_event\<close>) never fault and keep it well-formed.
    Over any event sequence the bit mask refines the spec's set of held
    buttons (\<open>buttons_after\<close>), and a drag of any number of moves keeps the
    grabbed world point under the pointer.
  \<^item> \<^bold>\<open>Render\<close> (Frame Parameter Exporter): \<open>export_params\<close>, the guarded
    uploads, \<open>RTT\<close> and \<open>Draw\<close>. The frame drawn shows,
    under each name of the wire contract, the quantity the spec assigns to
    it (\<open>wire_value\<close>);
    \<open>Draw\<close> is \<open>RTT\<close> followed by a buffer swap, and in every reachable state
    the parameter set is well-typed for the spec's wire contract.
  \<^item> \<^bold>\<open>Loop\<close> (Render Loop Driver): the \<open>RTT\<close> and the loop of \<open>main\<close>
    (lines 138--143), in two forms. \<open>main_loop\<close> recurses over the finite
    list of event batches that the successive polls deliver; its result says
    whether the loop exited (\<open>Closed\<close>) or was still running when the list
    ran out, and no fuel is needed. \<open>loop_stream\<close> runs over the unbounded
    stream of polls (\<open>nat \<Rightarrow> event list\<close>) as a \<open>partial_function\<close> in
    the option monad, so that a run that never leaves the loop is \<open>None\<close>.
    Lemmas: no frame after close, exit after an escape key, one frame per
    poll, invariance of the reachable states; termination of the stream loop
    once an escape arrives, non-termination without input, and the
    reachable-state invariant in every state where the stream loop exits.
  \<^item> \<^bold>\<open>Shader\<close> (Shader loading): \<open>readFile\<close>, \<open>CompileShader\<close> and
    \<open>LoadShaders\<close> (lines 38--110) on an explicit \<open>world\<close>: the file
    system, standard output, the live heap bytes, and the GL shader and
    program objects. The driver's compiler and linker are functions in the
    world. \<open>fopen\<close> returning \<open>NULL\<close> and the print of a log that was never
    written are the faults \<open>Null_file\<close> and \<open>Uninitialised_log\<close>. Lemmas:
    the compiled source is the file up to its first NUL byte, the two file
    buffers stay allocated, both shaders end attached and flagged for
    deletion, a failed compile without a log prints unwritten memory, and
    loading returns an unlinked program when the linker rejects it.
  \<^item> \<^bold>\<open>Startup\<close> (initGL and main): \<open>initGL\<close> (lines 236--275) with
    its exits \<open>-1\<close>, \<open>-2\<close>, \<open>-3\<close> on the failures a \<open>platform\<close> record
    reports, and \<open>run_main\<close>, the whole of \<open>main\<close> (lines 123--152):
    \<open>initGL\<close>, \<open>LoadShaders\<close>, the loop of the Loop theory on the new
    program's uniform locations, and the clean-up (\<open>glDeleteProgram\<close>,
    \<open>glfwTerminate\<close>). The outcome is an exit status with the final world, a
    run still going, a crash of the shader loading, or a handler fault.
    Lemmas: a non-zero exit status exactly on a failure of \<open>initGL\<close>, the
    crash on a missing shader file, and the refinement of \<open>run_main\<close> by the
    loop of the Loop theory.
  \<^item> This theory: the invariant of \<open>main\<close> from the initial globals. The
    scenarios of the spec's section 8 are instances of the general lemmas:
    the drag of the Input theory, the zoom and resize lemmas of the
    Viewport theory, and the toggle of the Input theory.

  Not modelled: the shader program itself (the fractal iteration lives on
  the GPU, in files that are not part of the sources), the pixel contents,
  the vertex buffer and array objects, the messages written to \<open>stderr\<close>,
  and the rounding of doubles and of the \<open>float\<close> uniforms. A fault of a
  handler ends a modelled run. The C program goes on with a NaN field, and
  no later handler makes it finite again: \<open>minx\<close> and \<open>miny\<close> are only
  ever updated from themselves, and \<open>dx\<close>, \<open>dy\<close> are only rebuilt from
  \<open>dy\<close>. Buttons are the indices \<open>0..7\<close> that GLFW reports, so
  \<open>1 << button\<close> stays inside the 32-bit \<open>int\<close>. The event type has no
  close request: GLFW sets the close flag itself when the window's close
  button is pressed, which is collaborator behaviour, so in the model the
  escape key is the only way out of the loop.

  Findings: a zero-height window size, which GLFW reports when the window is
  minimised, leaves \<open>resy = dy = 0\<close>. The next resize then divides \<open>0/0\<close>,
  so the code lacks the guard the spec requires (Input, group "Properties
  of the callbacks"). Events of a visible window never fault. The zoom is
  anchored at the centre and not at the cursor. The space key toggles on
  key repeat as well as on press. \<open>readFile\<close> does not check \<open>fopen\<close>, so a
  missing shader file crashes the program. The file buffers are never
  freed. A failed compile without a log prints uninitialised memory. A
  failed compile or link is not fatal, although the spec says it is.

  Further work, in order: a model of the NaN values after a fault, showing
  that they are absorbing; the \<open>float\<close> rounding of the uploaded uniforms.
\<close>

subsection \<open>The invariant of the whole program\<close>

text \<open>
  C14. Started from the initial globals, the program keeps square pixels and
  a 0/1 draw flag through \<open>main\<close>, whatever the polls deliver, as long as no
  handler faults.
\<close>

theorem main_keeps_invariant:
  assumes "main (init_app g) bs = Inr r"
  shows "uniform_scale (vp (final_state r)) \<and>
         (drawMandelbrot (final_state r) = 0 \<or> drawMandelbrot (final_state r) = 1)"
proof -
  have "reachable (init_app g)" by (rule reachable.start) (simp_all add: init_app_def)
  then have "reachable (RTT (init_app g))"
    by (simp add: RTT_def reachable.render)
  with assms have "reachable (final_state r)"
    by (simp add: main_def main_loop_reachable)
  then have "app_inv (final_state r)" by (rule reachable_app_inv)
  then show ?thesis by (auto simp: app_inv_def)
qed

theorem main_keeps_invariant_witness:
  "\<exists>r. main (init_app (init_gl (\<lambda>_. -1))) [[Scroll 0 1, WindowSize 800 450]] = Inr r \<and>
     uniform_scale (vp (final_state r))"
proof -
  have "\<exists>r. main (init_app (init_gl (\<lambda>_. -1))) [[Scroll 0 1, WindowSize 800 450]] = Inr r"
    by (simp add: main_def RTT_def init_app_def init_gl_def init_viewport_def handler_defs Let_def)
  then obtain r where m: "main (init_app (init_gl (\<lambda>_. -1))) [[Scroll 0 1, WindowSize 800 450]] = Inr r" ..
  with main_keeps_invariant [OF m] show ?thesis by blast
qed

end
